theory Spec2Isabelle
  imports Main "HOL-Library.Word"
begin

section \<open>Strings and the unicode predicates\<close>

text \<open>
  A Go string is modelled as the list of its runes, the values that
  \<^verbatim>\<open>for _, r := range name\<close> yields, each rune an Isabelle \<^typ>\<open>char\<close>. The
  model therefore covers the names over U+0000..U+00FF; on that range the three
  predicates below are the tables of Go's package unicode (its Latin-1 property
  table and its case ranges).
\<close>

definition IsSpace :: "char \<Rightarrow> bool" where
  "IsSpace r = (of_char r \<in> {9, 10, 11, 12, 13, 32, 133, 160 :: nat})"

definition IsLetter :: "char \<Rightarrow> bool" where
  "IsLetter r =
     (let n = (of_char r :: nat) in
        (65 \<le> n \<and> n \<le> 90) \<or> (97 \<le> n \<and> n \<le> 122) \<or> n = 170 \<or> n = 181 \<or> n = 186
        \<or> (192 \<le> n \<and> n \<le> 214) \<or> (216 \<le> n \<and> n \<le> 246) \<or> (248 \<le> n \<and> n \<le> 255))"

text \<open>The result of \<^verbatim>\<open>unicode.ToUpper\<close> is a code point, which may lie above U+00FF.\<close>

definition ToUpper :: "char \<Rightarrow> nat" where
  "ToUpper r =
     (let n = (of_char r :: nat) in
        if 97 \<le> n \<and> n \<le> 122 then n - 32
        else if n = 181 then n + 743
        else if 224 \<le> n \<and> n \<le> 246 then n - 32
        else if 248 \<le> n \<and> n \<le> 254 then n - 32
        else if n = 255 then n + 121
        else n)"

text \<open>\<^verbatim>\<open>strings.TrimSpace\<close>: leading and trailing white space removed.\<close>

definition TrimSpace :: "string \<Rightarrow> string" where
  "TrimSpace s = rev (dropWhile IsSpace (rev (dropWhile IsSpace s)))"

text \<open>\<^verbatim>\<open>strings.Fields\<close>: the maximal runs of non-space runes, in order.\<close>

fun fields_from :: "string \<Rightarrow> string \<Rightarrow> string list" where
  "fields_from cur [] = (if cur = [] then [] else [cur])"
| "fields_from cur (c # cs) =
     (if IsSpace c then (if cur = [] then fields_from [] cs else cur # fields_from [] cs)
      else fields_from (cur @ [c]) cs)"

definition Fields :: "string \<Rightarrow> string list" where
  "Fields s = fields_from [] s"

section \<open>The grammar model\<close>

text \<open>
  \<^verbatim>\<open>SymbolKind\<close>, \<^verbatim>\<open>Assoc\<close>, \<^verbatim>\<open>DiagnosticLevel\<close> and \<^verbatim>\<open>DirectiveKind\<close> are
  \<^verbatim>\<open>uint8\<close> types with named constants; the model has the named constants only, so
  the \<^verbatim>\<open>default\<close> branch of \<^verbatim>\<open>kindString\<close> does not arise.
\<close>

datatype SymbolKind = SymTerminal | SymNonterminal

datatype Assoc = AssocNone | AssocLeft | AssocRight | AssocNonassoc

record Span =
  File :: string
  Line :: int
  Column :: int
  EndLine :: int
  EndColumn :: int

text \<open>
  A \<^verbatim>\<open>*Symbol\<close> is the position of the symbol in the intern table
  \<^verbatim>\<open>Grammar.Symbols\<close>, which is the only place where the builder allocates
  symbols and which only grows; \<open>None\<close> is the nil pointer. The field \<open>ID\<close> is
  stored data, as in the source. In the same way a \<^verbatim>\<open>*Rule\<close> is a position in
  \<^verbatim>\<open>Grammar.Rules\<close>.
\<close>

record Symbol =
  ID :: nat
  Name :: string
  Kind :: SymbolKind
  TypeTag :: string
  Precedence :: "64 word"
  Assoc :: Assoc
  DeclaredAt :: "Span option"

record SymbolRef =
  Sym :: "nat option"
  Label :: string
  SymbolRef_At :: "Span option"

record Action =
  Raw :: string
  Action_At :: "Span option"

record Alternative =
  RHS :: "SymbolRef option list"
  Alternative_Action :: "Action option"
  PrecSym :: "nat option"
  Alternative_At :: "Span option"

record Rule =
  LHS :: "nat option"
  Alternatives :: "Alternative option list"
  Rule_At :: "Span option"

record Grammar =
  Grammar_Name :: string
  Start :: "nat option"
  Symbols :: "Symbol list"
  SymbolsByName :: "string \<rightharpoonup> nat"
  Rules :: "Rule option list"
  Directives :: "string \<rightharpoonup> string"

section \<open>Diagnostics and the builder\<close>

datatype DiagnosticLevel = DiagError | DiagWarn

text \<open>
  A message is kept as the format string and the arguments that the source passes to
  \<^verbatim>\<open>fmt.Sprintf\<close>.
\<close>

datatype Arg = ArgS string | ArgD int

datatype Message = Sprintf string "Arg list"

record Diagnostic =
  Level :: DiagnosticLevel
  Msg :: Message
  At :: "Span option"

text \<open>
  A \<^verbatim>\<open>*Builder\<close> is never nil in the model and owns its grammar, so \<open>g\<close> holds the
  grammar itself. Every method takes the builder last and returns the new builder, with
  its result when it has one. \<^verbatim>\<open>precedenceCounter\<close> and \<^verbatim>\<open>Precedence\<close> are Go
  \<^verbatim>\<open>int\<close>s, of 64 bits on the 64-bit platforms: they are words of 64 bits, so that
  \<^verbatim>\<open>b.precedenceCounter++\<close> wraps around, and \<^const>\<open>sint\<close> reads their signed
  value, which is what \<^verbatim>\<open>%d\<close> prints.
\<close>

record Builder =
  g :: Grammar
  precedenceCounter :: "64 word"
  diags :: "Diagnostic list"

definition NewBuilder :: "string \<Rightarrow> Builder" where
  "NewBuilder fileLabel =
     \<lparr>g = \<lparr>Grammar_Name = [], Start = None, Symbols = [], SymbolsByName = Map.empty,
            Rules = [], Directives = Map.empty\<rparr>,
      precedenceCounter = 0, diags = []\<rparr>"

definition HasErrors :: "Builder \<Rightarrow> bool" where
  "HasErrors b = (\<exists>d \<in> set (diags b). Level d = DiagError)"

definition Lookup :: "string \<Rightarrow> Builder \<Rightarrow> nat option" where
  "Lookup name b = SymbolsByName (g b) (TrimSpace name)"

definition error :: "Span option \<Rightarrow> string \<Rightarrow> Arg list \<Rightarrow> Builder \<Rightarrow> Builder" where
  "error at msg args b = b\<lparr>diags := diags b @ [\<lparr>Level = DiagError, Msg = Sprintf msg args, At = at\<rparr>]\<rparr>"

definition warn :: "Span option \<Rightarrow> string \<Rightarrow> Arg list \<Rightarrow> Builder \<Rightarrow> Builder" where
  "warn at msg args b = b\<lparr>diags := diags b @ [\<lparr>Level = DiagWarn, Msg = Sprintf msg args, At = at\<rparr>]\<rparr>"

fun kindString :: "SymbolKind \<Rightarrow> string" where
  "kindString SymTerminal = ''terminal''"
| "kindString SymNonterminal = ''nonterminal''"

subsection \<open>Symbol interning and metadata\<close>

text \<open>
  \<open>intern_trimmed\<close> is the body of \<^verbatim>\<open>Intern\<close> after the name has been trimmed and
  found non-empty. \<^verbatim>\<open>Intern\<close> and \<^verbatim>\<open>internDummy\<close> call each other in the source;
  the call from \<^verbatim>\<open>internDummy\<close> passes the non-empty name \<^verbatim>\<open><invalid>\<close>, so it
  always reaches this body (lemma \<open>internDummy_Intern\<close> below).
\<close>

definition intern_trimmed :: "string \<Rightarrow> SymbolKind \<Rightarrow> Span option \<Rightarrow> Builder \<Rightarrow> Builder \<times> nat" where
  "intern_trimmed name kind at b =
     (case SymbolsByName (g b) name of
        Some p \<Rightarrow>
          (if Kind (Symbols (g b) ! p) \<noteq> kind
           then (error at ''symbol %q previously declared as %s, cannot redeclare as %s''
                   [ArgS name, ArgS (kindString (Kind (Symbols (g b) ! p))), ArgS (kindString kind)] b,
                 p)
           else (b, p))
      | None \<Rightarrow>
          (let s = \<lparr>ID = length (Symbols (g b)), Name = name, Kind = kind, TypeTag = [],
                      Precedence = 0, Assoc = AssocNone, DeclaredAt = at\<rparr>
           in (b\<lparr>g := (g b)\<lparr>Symbols := Symbols (g b) @ [s],
                              SymbolsByName := (SymbolsByName (g b))(name \<mapsto> length (Symbols (g b)))\<rparr>\<rparr>,
               length (Symbols (g b)))))"

definition internDummy :: "Span option \<Rightarrow> Builder \<Rightarrow> Builder \<times> nat" where
  "internDummy at b =
     (case SymbolsByName (g b) ''<invalid>'' of
        Some p \<Rightarrow> (b, p)
      | None \<Rightarrow> intern_trimmed ''<invalid>'' SymNonterminal at b)"

definition Intern :: "string \<Rightarrow> SymbolKind \<Rightarrow> Span option \<Rightarrow> Builder \<Rightarrow> Builder \<times> nat" where
  "Intern name kind at b =
     (if TrimSpace name = []
      then internDummy at (error at ''symbol name is empty'' [] b)
      else intern_trimmed (TrimSpace name) kind at b)"

definition EnsureTerminal :: "string \<Rightarrow> Span option \<Rightarrow> Builder \<Rightarrow> Builder \<times> nat" where
  "EnsureTerminal name at b = Intern name SymTerminal at b"

definition EnsureNonterminal :: "string \<Rightarrow> Span option \<Rightarrow> Builder \<Rightarrow> Builder \<times> nat" where
  "EnsureNonterminal name at b = Intern name SymNonterminal at b"

definition SetTypeTag :: "nat option \<Rightarrow> string \<Rightarrow> Span option \<Rightarrow> Builder \<Rightarrow> Builder" where
  "SetTypeTag sym0 typeTag at b =
     (case sym0 of
        None \<Rightarrow> b
      | Some p \<Rightarrow>
          (if TrimSpace typeTag = [] then b
           else if TypeTag (Symbols (g b) ! p) \<noteq> [] \<and> TypeTag (Symbols (g b) ! p) \<noteq> TrimSpace typeTag
           then error at ''symbol %q already has type %q; cannot set to %q''
                  [ArgS (Name (Symbols (g b) ! p)), ArgS (TypeTag (Symbols (g b) ! p)),
                   ArgS (TrimSpace typeTag)] b
           else b\<lparr>g := (g b)\<lparr>Symbols :=
                     (Symbols (g b))[p := (Symbols (g b) ! p)\<lparr>TypeTag := TrimSpace typeTag\<rparr>]\<rparr>\<rparr>))"

definition SetStart :: "nat option \<Rightarrow> Span option \<Rightarrow> Builder \<Rightarrow> Builder" where
  "SetStart sym0 at b =
     (case sym0 of
        None \<Rightarrow> b
      | Some p \<Rightarrow>
          (if Kind (Symbols (g b) ! p) \<noteq> SymNonterminal
           then error at ''start symbol %q must be a nonterminal'' [ArgS (Name (Symbols (g b) ! p))] b
           else
             (let b1 = (case Start (g b) of
                          None \<Rightarrow> b
                        | Some s \<Rightarrow>
                            if s \<noteq> p
                            then warn at ''start symbol changed from %q to %q''
                                   [ArgS (Name (Symbols (g b) ! s)), ArgS (Name (Symbols (g b) ! p))] b
                            else b)
              in b1\<lparr>g := (g b1)\<lparr>Start := Some p\<rparr>\<rparr>)))"

subsection \<open>Precedence directives\<close>

text \<open>One iteration of the loop over the terminals of a precedence group.\<close>

definition precedence_step :: "Assoc \<Rightarrow> 64 word \<Rightarrow> Span option \<Rightarrow> Builder \<Rightarrow> nat option \<Rightarrow> Builder" where
  "precedence_step assoc level at b t =
     (case t of
        None \<Rightarrow> b
      | Some p \<Rightarrow>
          (if Kind (Symbols (g b) ! p) \<noteq> SymTerminal
           then error at ''precedence can only be assigned to terminals; %q is %s''
                  [ArgS (Name (Symbols (g b) ! p)), ArgS (kindString (Kind (Symbols (g b) ! p)))] b
           else if Precedence (Symbols (g b) ! p) \<noteq> 0
           then warn at ''terminal %q already has precedence %d; ignoring new precedence %d''
                  [ArgS (Name (Symbols (g b) ! p)), ArgD (sint (Precedence (Symbols (g b) ! p))),
                   ArgD (sint level)] b
           else b\<lparr>g := (g b)\<lparr>Symbols :=
                     (Symbols (g b))[p := (Symbols (g b) ! p)\<lparr>Precedence := level, Assoc := assoc\<rparr>]\<rparr>\<rparr>))"

definition DefinePrecedenceGroup :: "Assoc \<Rightarrow> nat option list \<Rightarrow> Span option \<Rightarrow> Builder \<Rightarrow> Builder" where
  "DefinePrecedenceGroup assoc terminals at b =
     (if assoc = AssocNone
      then error at ''precedence group must have associativity (left/right/nonassoc)'' [] b
      else
        (let b1 = b\<lparr>precedenceCounter := precedenceCounter b + 1\<rparr>;
             level = precedenceCounter b1
         in foldl (precedence_step assoc level at) b1 terminals))"

subsection \<open>Rules and productions\<close>

record RuleBuilder =
  rb_rule :: "nat option"
  rb_done :: bool

definition BeginRule :: "nat option \<Rightarrow> Span option \<Rightarrow> Builder \<Rightarrow> Builder \<times> RuleBuilder" where
  "BeginRule lhs0 at b =
     (let (b1, lhs) = (case lhs0 of None \<Rightarrow> internDummy at b | Some p \<Rightarrow> (b, p));
          b2 = (if Kind (Symbols (g b1) ! lhs) \<noteq> SymNonterminal
                then error at ''rule LHS %q must be a nonterminal'' [ArgS (Name (Symbols (g b1) ! lhs))] b1
                else b1);
          r = \<lparr>LHS = Some lhs, Alternatives = [], Rule_At = at\<rparr>;
          b3 = b2\<lparr>g := (g b2)\<lparr>Rules := Rules (g b2) @ [Some r]\<rparr>\<rparr>;
          b4 = (if Start (g b3) = None \<and> Kind (Symbols (g b3) ! lhs) = SymNonterminal
                then b3\<lparr>g := (g b3)\<lparr>Start := Some lhs\<rparr>\<rparr>
                else b3)
      in (b4, \<lparr>rb_rule = Some (length (Rules (g b2))), rb_done = False\<rparr>))"

text \<open>The loop of \<^verbatim>\<open>Alt\<close> that reports the nil references of a right-hand side.\<close>

fun check_rhs :: "Span option \<Rightarrow> nat \<Rightarrow> SymbolRef option list \<Rightarrow> Builder \<Rightarrow> Builder" where
  "check_rhs at i [] b = b"
| "check_rhs at i (sr # rhs) b =
     check_rhs at (Suc i) rhs
       (if sr = None \<or> Sym (the sr) = None
        then error at ''rhs symbol at position %d is nil'' [ArgD (int i)] b
        else b)"

definition Alt :: "RuleBuilder option \<Rightarrow> SymbolRef option list \<Rightarrow> Action option \<Rightarrow> nat option \<Rightarrow>
    Span option \<Rightarrow> Builder \<Rightarrow> Builder" where
  "Alt rb rhs action prec0 at b =
     (case rb of
        None \<Rightarrow> b
      | Some rbv \<Rightarrow>
          (if rb_done rbv then b
           else case rb_rule rbv of
             None \<Rightarrow> b
           | Some ri \<Rightarrow>
               (let b1 = check_rhs at 0 rhs b;
                    (b2, prec) =
                      (case prec0 of
                         None \<Rightarrow> (b1, None)
                       | Some p \<Rightarrow>
                           if Kind (Symbols (g b1) ! p) \<noteq> SymTerminal
                           then (error at ''precedence override symbol %q must be a terminal''
                                   [ArgS (Name (Symbols (g b1) ! p))] b1, None)
                           else (b1, Some p));
                    alt = \<lparr>RHS = rhs, Alternative_Action = action, PrecSym = prec, Alternative_At = at\<rparr>
                in b2\<lparr>g := (g b2)\<lparr>Rules :=
                         (Rules (g b2))[ri := map_option
                            (\<lambda>r. r\<lparr>Alternatives := Alternatives r @ [Some alt]\<rparr>) (Rules (g b2) ! ri)]\<rparr>\<rparr>)))"

definition End :: "RuleBuilder option \<Rightarrow> RuleBuilder option" where
  "End rb = map_option (\<lambda>r. r\<lparr>rb_done := True\<rparr>) rb"

definition NewRef :: "nat option \<Rightarrow> string \<Rightarrow> Span option \<Rightarrow> Builder \<Rightarrow> Builder \<times> SymbolRef" where
  "NewRef sym0 label at b =
     (let (b1, p) = (case sym0 of None \<Rightarrow> internDummy at b | Some p \<Rightarrow> (b, p))
      in (b1, \<lparr>Sym = Some p, Label = TrimSpace label, SymbolRef_At = at\<rparr>))"

definition NewAction :: "string \<Rightarrow> Span option \<Rightarrow> Action option" where
  "NewAction raw at = (if TrimSpace raw = [] then None else Some \<lparr>Raw = TrimSpace raw, Action_At = at\<rparr>)"

subsection \<open>Generic directives passthrough\<close>

definition SetDirective :: "string \<Rightarrow> string \<Rightarrow> Span option \<Rightarrow> Builder \<Rightarrow> Builder" where
  "SetDirective key val at b =
     (if TrimSpace key = [] then error at ''directive key is empty'' [] b
      else
        (let b1 = (if Directives (g b) (TrimSpace key) \<noteq> None
                   then warn at ''directive %q overwritten'' [ArgS (TrimSpace key)] b
                   else b)
         in b1\<lparr>g := (g b1)\<lparr>Directives := (Directives (g b1))(TrimSpace key \<mapsto> val)\<rparr>\<rparr>))"

subsection \<open>Finalize\<close>

text \<open>
  The maps of \<^verbatim>\<open>Finalize\<close> that are keyed by \<^verbatim>\<open>*Symbol\<close> are kept as the lists of
  the keys written to them: \<open>lhsHasRule\<close> holds the left-hand sides marked, \<open>used\<close> holds
  one entry for each increment (so \<^verbatim>\<open>used[sym] == 0\<close> is \<open>sym \<notin> set used\<close>), \<open>edges\<close>
  holds the pairs \<open>(A, B)\<close> with \<^verbatim>\<open>edges[A][B] = true\<close>. Go leaves the order of a
  \<^verbatim>\<open>range\<close> over a map open; the model visits the keys without repetition in the
  order \<^const>\<open>remdups\<close> gives. Only diagnostics are written: the grammar is
  returned as it is.
\<close>

definition lhs_step :: "Builder \<times> nat list \<Rightarrow> Rule option \<Rightarrow> Builder \<times> nat list" where
  "lhs_step st r =
     (let (b, lhsHasRule) = st in
      case r of
        None \<Rightarrow> (error None ''rule has nil LHS'' [] b, lhsHasRule)
      | Some rv \<Rightarrow>
          (case LHS rv of
             None \<Rightarrow> (error None ''rule has nil LHS'' [] b, lhsHasRule)
           | Some l \<Rightarrow>
               ((if Kind (Symbols (g b) ! l) \<noteq> SymNonterminal
                 then error (Rule_At rv) ''rule LHS %q must be a nonterminal''
                        [ArgS (Name (Symbols (g b) ! l))] b
                 else b),
                lhsHasRule @ [l])))"

fun rhs_loop :: "nat \<Rightarrow> Alternative \<Rightarrow> nat \<Rightarrow> SymbolRef option list \<Rightarrow>
    Builder \<times> nat list \<times> (nat \<times> nat) list \<Rightarrow> Builder \<times> nat list \<times> (nat \<times> nat) list" where
  "rhs_loop l alt pos [] st = st"
| "rhs_loop l alt pos (sr # rest) (b, used, edges) =
     rhs_loop l alt (Suc pos) rest
       (case (case sr of None \<Rightarrow> None | Some srv \<Rightarrow> Sym srv) of
          None \<Rightarrow>
            (error (Alternative_At alt) ''rule %q has nil rhs symbol at position %d''
               [ArgS (Name (Symbols (g b) ! l)), ArgD (int pos)] b, used, edges)
        | Some p \<Rightarrow>
            (b, used @ [p],
             if Kind (Symbols (g b) ! p) = SymNonterminal then edges @ [(l, p)] else edges))"

definition alt_step :: "Rule \<Rightarrow> nat \<Rightarrow> Builder \<times> nat list \<times> (nat \<times> nat) list \<Rightarrow>
    Alternative option \<Rightarrow> Builder \<times> nat list \<times> (nat \<times> nat) list" where
  "alt_step r l st alt0 =
     (let (b, used, edges) = st in
      case alt0 of
        None \<Rightarrow>
          (error (Rule_At r) ''rule %q has a nil alternative'' [ArgS (Name (Symbols (g b) ! l))] b,
           used, edges)
      | Some alt \<Rightarrow>
          (let (b1, used1, edges1) = rhs_loop l alt 0 (RHS alt) (b, used, edges) in
           case PrecSym alt of
             None \<Rightarrow> (b1, used1, edges1)
           | Some ps \<Rightarrow>
               ((if Kind (Symbols (g b1) ! ps) \<noteq> SymTerminal
                 then error (Alternative_At alt) ''precedence override symbol %q must be a terminal''
                        [ArgS (Name (Symbols (g b1) ! ps))] b1
                 else if Precedence (Symbols (g b1) ! ps) = 0
                 then warn (Alternative_At alt)
                        ''precedence override uses %q, but it has no precedence (missing %%left/%%right/%%nonassoc?)''
                        [ArgS (Name (Symbols (g b1) ! ps))] b1
                 else b1),
                used1 @ [ps], edges1)))"

definition rule_step :: "Builder \<times> nat list \<times> (nat \<times> nat) list \<Rightarrow> Rule option \<Rightarrow>
    Builder \<times> nat list \<times> (nat \<times> nat) list" where
  "rule_step st r =
     (let (b, used, edges) = st in
      case r of
        None \<Rightarrow> st
      | Some rv \<Rightarrow>
          (case LHS rv of
             None \<Rightarrow> st
           | Some l \<Rightarrow>
               if Alternatives rv = []
               then (warn (Rule_At rv) ''rule %q has no alternatives'' [ArgS (Name (Symbols (g b) ! l))] b,
                     used, edges)
               else foldl (alt_step rv l) st (Alternatives rv)))"

definition undefined_step :: "nat list \<Rightarrow> Builder \<Rightarrow> nat \<Rightarrow> Builder" where
  "undefined_step lhsHasRule b p =
     (if Kind (Symbols (g b) ! p) = SymNonterminal \<and> p \<notin> set lhsHasRule
      then error (DeclaredAt (Symbols (g b) ! p)) ''nonterminal %q is used but has no rule''
             [ArgS (Name (Symbols (g b) ! p))] b
      else b)"

text \<open>
  The depth-first search for the reachable nonterminals. The head of \<open>stack\<close> is the top
  of the stack of the source.
\<close>

definition reach_step :: "Symbol list \<Rightarrow> nat list \<times> nat list \<Rightarrow> nat \<Rightarrow> nat list \<times> nat list" where
  "reach_step syms st next =
     (let (stack, reachable) = st in
      if Kind (syms ! next) \<noteq> SymNonterminal then st
      else if next \<notin> set reachable then (next # stack, reachable @ [next])
      else st)"

definition targets :: "(nat \<times> nat) list \<Rightarrow> nat \<Rightarrow> nat list" where
  "targets edges nt = remdups (map snd (filter (\<lambda>e. fst e = nt) edges))"

function reach :: "Symbol list \<Rightarrow> (nat \<times> nat) list \<Rightarrow> nat list \<Rightarrow> nat list \<Rightarrow> nat list" where
  "reach syms edges [] reachable = reachable"
| "reach syms edges (nt # rest) reachable =
     (case foldl (reach_step syms) (rest, reachable) (targets edges nt) of
        (stack', reachable') \<Rightarrow> reach syms edges stack' reachable')"
  by pat_completeness auto
termination
proof -
  have m: "length stack' + card (U - set reachable') \<le> length stack + card (U - set reachable)"
    if "set ts \<subseteq> U" "finite U" "foldl (reach_step syms) (stack, reachable) ts = (stack', reachable')"
    for ts :: "nat list" and U syms stack reachable stack' reachable'
    using that
  proof (induction ts arbitrary: stack reachable)
    case Nil
    then show ?case by simp
  next
    case (Cons t ts)
    show ?case
    proof (cases "Kind (syms ! t) = SymNonterminal \<and> t \<notin> set reachable")
      case True
      then have step: "reach_step syms (stack, reachable) t = (t # stack, reachable @ [t])"
        by (simp add: reach_step_def)
      from Cons.prems have tU: "t \<in> U" by simp
      with True Cons.prems(2) have "card (U - set (reachable @ [t])) < card (U - set reachable)"
        by (intro psubset_card_mono) auto
      moreover have "length stack' + card (U - set reachable')
          \<le> length (t # stack) + card (U - set (reachable @ [t]))"
        using Cons.IH [of "t # stack" "reachable @ [t]"] Cons.prems step by simp
      ultimately show ?thesis by simp
    next
      case False
      then have "reach_step syms (stack, reachable) t = (stack, reachable)"
        by (auto simp add: reach_step_def)
      then show ?thesis using Cons.IH [of stack reachable] Cons.prems by simp
    qed
  qed
  have t: "set (targets edges nt) \<subseteq> snd ` set edges" for edges nt
    by (auto simp add: targets_def)
  show ?thesis
  proof (relation "measure (\<lambda>(syms, edges, stack, reachable).
                     length stack + card (snd ` set edges - set reachable))", goal_cases)
    case 1
    then show ?case by simp
  next
    case (2 syms edges nt rest reachable stack' reachable')
    from m [OF t _ 2 [symmetric]] show ?case by simp
  qed
qed

definition unreachable_step :: "nat list \<Rightarrow> nat \<Rightarrow> Builder \<Rightarrow> nat \<Rightarrow> Builder" where
  "unreachable_step reachable start b nt =
     (if nt \<notin> set reachable
      then warn (DeclaredAt (Symbols (g b) ! nt))
             ''nonterminal %q has rules but is unreachable from start symbol %q''
             [ArgS (Name (Symbols (g b) ! nt)), ArgS (Name (Symbols (g b) ! start))] b
      else b)"

definition unused_step :: "nat list \<Rightarrow> nat list \<Rightarrow> Builder \<Rightarrow> nat \<Rightarrow> Builder" where
  "unused_step used lhsHasRule b p =
     (let s = Symbols (g b) ! p in
      if Name s = ''<invalid>'' then b
      else if p \<notin> set used
      then (case Kind s of
              SymTerminal \<Rightarrow> warn (DeclaredAt s) ''terminal %q is declared but never used'' [ArgS (Name s)] b
            | SymNonterminal \<Rightarrow>
                if p \<in> set lhsHasRule
                then warn (DeclaredAt s)
                       ''nonterminal %q has rules but is never referenced (except as LHS)'' [ArgS (Name s)] b
                else warn (DeclaredAt s)
                       ''nonterminal %q is declared but never used and has no rules'' [ArgS (Name s)] b)
      else b)"

definition Finalize :: "Builder \<Rightarrow> Builder" where
  "Finalize b =
     (if Rules (g b) = [] then error None ''grammar has no rules'' [] b
      else
        (let b1 = (case Start (g b) of
                     None \<Rightarrow> error None ''start symbol is not set and could not be inferred'' [] b
                   | Some s \<Rightarrow>
                       if Kind (Symbols (g b) ! s) \<noteq> SymNonterminal
                       then error (DeclaredAt (Symbols (g b) ! s)) ''start symbol %q must be a nonterminal''
                              [ArgS (Name (Symbols (g b) ! s))] b
                       else b);
             (b2, lhsHasRule) = foldl lhs_step (b1, []) (Rules (g b1));
             (b3, used, edges) = foldl rule_step (b2, [], []) (Rules (g b2));
             b4 = foldl (undefined_step lhsHasRule) b3 (remdups used);
             b5 = (case Start (g b4) of
                     None \<Rightarrow> b4
                   | Some s \<Rightarrow>
                       if Kind (Symbols (g b4) ! s) = SymNonterminal
                       then foldl (unreachable_step (reach (Symbols (g b4)) edges [s] [s]) s) b4
                              (remdups lhsHasRule)
                       else b4)
         in foldl (unused_step used lhsHasRule) b5 [0..<length (Symbols (g b5))]))"

section \<open>The parser-facing sink\<close>

datatype DirectiveKind =
    DirUnknown | DirStartSymbol | DirTokenType | DirType | DirToken
  | DirLeft | DirRight | DirNonassoc | DirInclude | DirCode | DirFallback

record SymRef =
  SymRef_Name :: string
  SymRef_At :: "Span option"
  SymRef_Label :: string
  SymRef_TypeTag :: string

record Directive =
  Directive_Kind :: DirectiveKind
  Directive_At :: "Span option"
  Key :: string
  Value :: string
  Directive_List :: "SymRef list"

record Alt =
  Alt_At :: "Span option"
  Alt_RHS :: "SymRef list"
  Alt_Action :: "Action option"
  Prec :: "SymRef option"

text \<open>
  The sink owns its builder, so \<open>B\<close> holds the builder's state; \<^verbatim>\<open>declTokens\<close> is a
  \<^verbatim>\<open>map[string]bool\<close> read with the zero value \<open>False\<close> for a missing key.
\<close>

record BuilderSink =
  B :: Builder
  curRule :: "RuleBuilder option"
  curLHS :: "nat option"
  declTokens :: "string \<Rightarrow> bool"
  declTypes :: "string \<rightharpoonup> string"
  UseHeuristicCapsAsTerminal :: bool

definition NewBuilderSink :: "Builder \<Rightarrow> BuilderSink" where
  "NewBuilderSink b =
     \<lparr>B = b, curRule = None, curLHS = None, declTokens = (\<lambda>_. False), declTypes = Map.empty,
      UseHeuristicCapsAsTerminal = True\<rparr>"

subsection \<open>Symbol resolution\<close>

fun looks_loop :: "bool \<Rightarrow> bool \<Rightarrow> string \<Rightarrow> bool" where
  "looks_loop hasLetter allUpperLetters [] = (hasLetter \<and> allUpperLetters)"
| "looks_loop hasLetter allUpperLetters (r # rs) =
     (if IsLetter r
      then looks_loop True (if ToUpper r \<noteq> of_char r then False else allUpperLetters) rs
      else True)"

definition looksLikeTerminal :: "string \<Rightarrow> bool" where
  "looksLikeTerminal name = (if name = [] then False else looks_loop False True name)"

definition resolveSymbolInRHS :: "SymRef \<Rightarrow> BuilderSink \<Rightarrow> BuilderSink \<times> nat" where
  "resolveSymbolInRHS sr s =
     (let name = TrimSpace (SymRef_Name sr) in
      if name = []
      then (let (b1, p) = internDummy (SymRef_At sr)
                            (error (SymRef_At sr) ''rhs symbol name is empty'' [] (B s))
            in (s\<lparr>B := b1\<rparr>, p))
      else if declTokens s name
      then (let (b1, p) = EnsureTerminal name (SymRef_At sr) (B s) in (s\<lparr>B := b1\<rparr>, p))
      else case Lookup name (B s) of
        Some existing \<Rightarrow> (s, existing)
      | None \<Rightarrow>
          if UseHeuristicCapsAsTerminal s \<and> looksLikeTerminal name
          then (let (b1, p) = EnsureTerminal name (SymRef_At sr) (B s) in (s\<lparr>B := b1\<rparr>, p))
          else (let (b1, p) = EnsureNonterminal name (SymRef_At sr) (B s) in (s\<lparr>B := b1\<rparr>, p)))"

subsection \<open>Sink implementation\<close>

definition Sink_ParserError :: "Span option \<Rightarrow> string \<Rightarrow> BuilderSink \<Rightarrow> BuilderSink" where
  "Sink_ParserError at msg s = s\<lparr>B := error at ''%s'' [ArgS msg] (B s)\<rparr>"

definition token_step :: "BuilderSink \<Rightarrow> SymRef \<Rightarrow> BuilderSink" where
  "token_step s sr =
     (let name = TrimSpace (SymRef_Name sr) in
      if name = [] then s
      else s\<lparr>declTokens := (declTokens s)(name := True),
             B := fst (EnsureTerminal name (SymRef_At sr) (B s))\<rparr>)"

definition type_step :: "string \<Rightarrow> BuilderSink \<Rightarrow> SymRef \<Rightarrow> BuilderSink" where
  "type_step typeTag s sr =
     (let name = TrimSpace (SymRef_Name sr) in
      if name = [] then s
      else (let (b1, p) = EnsureNonterminal name (SymRef_At sr) (B s)
            in s\<lparr>declTypes := (declTypes s)(name \<mapsto> typeTag),
                  B := SetTypeTag (Some p) typeTag (SymRef_At sr) b1\<rparr>))"

definition prec_list_step :: "BuilderSink \<times> nat list \<Rightarrow> SymRef \<Rightarrow> BuilderSink \<times> nat list" where
  "prec_list_step st sr =
     (let (s, terms) = st; name = TrimSpace (SymRef_Name sr) in
      if name = [] then st
      else (let (b1, p) = EnsureTerminal name (SymRef_At sr) (B s)
            in (s\<lparr>declTokens := (declTokens s)(name := True), B := b1\<rparr>, terms @ [p])))"

definition prec_field_step :: "Span option \<Rightarrow> BuilderSink \<times> nat list \<Rightarrow> string \<Rightarrow>
    BuilderSink \<times> nat list" where
  "prec_field_step at st name =
     (let (s, terms) = st; (b1, p) = EnsureTerminal name at (B s)
      in (s\<lparr>declTokens := (declTokens s)(name := True), B := b1\<rparr>, terms @ [p]))"

definition store_directive :: "Directive \<Rightarrow> BuilderSink \<Rightarrow> BuilderSink" where
  "store_directive d s =
     (let key = (if TrimSpace (Key d) = [] then ''directive'' else TrimSpace (Key d))
      in s\<lparr>B := SetDirective key (Value d) (Directive_At d) (B s)\<rparr>)"

definition precedence_directive :: "Assoc \<Rightarrow> Directive \<Rightarrow> BuilderSink \<Rightarrow> BuilderSink" where
  "precedence_directive assoc d s =
     (let (s1, terms1) = foldl prec_list_step (s, []) (Directive_List d);
          (s2, terms) = (if terms1 = []
                         then foldl (prec_field_step (Directive_At d)) (s1, terms1) (Fields (Value d))
                         else (s1, terms1))
      in if terms = []
         then s2\<lparr>B := error (Directive_At d) ''precedence directive requires at least one terminal'' [] (B s2)\<rparr>
         else s2\<lparr>B := DefinePrecedenceGroup assoc (map Some terms) (Directive_At d) (B s2)\<rparr>)"

fun Sink_Directive_kind :: "DirectiveKind \<Rightarrow> Directive \<Rightarrow> BuilderSink \<Rightarrow> BuilderSink" where
  "Sink_Directive_kind DirStartSymbol d s =
     (let name = TrimSpace (Value d) in
      if name = []
      then s\<lparr>B := error (Directive_At d) ''%%start_symbol requires a symbol name'' [] (B s)\<rparr>
      else (let (b1, p) = EnsureNonterminal name (Directive_At d) (B s)
            in s\<lparr>B := SetStart (Some p) (Directive_At d) b1\<rparr>))"
| "Sink_Directive_kind DirToken d s =
     (let s1 = (if TrimSpace (Value d) \<noteq> []
                then s\<lparr>declTokens := (declTokens s)(TrimSpace (Value d) := True),
                       B := fst (EnsureTerminal (TrimSpace (Value d)) (Directive_At d) (B s))\<rparr>
                else s)
      in foldl token_step s1 (Directive_List d))"
| "Sink_Directive_kind DirType d s =
     (let typeTag = TrimSpace (Value d) in
      if typeTag = []
      then s\<lparr>B := error (Directive_At d) ''%%type requires a type tag'' [] (B s)\<rparr>
      else foldl (type_step typeTag) s (Directive_List d))"
| "Sink_Directive_kind DirTokenType d s =
     s\<lparr>B := SetDirective ''token_type'' (Value d) (Directive_At d) (B s)\<rparr>"
| "Sink_Directive_kind DirLeft d s = precedence_directive AssocLeft d s"
| "Sink_Directive_kind DirRight d s = precedence_directive AssocRight d s"
| "Sink_Directive_kind DirNonassoc d s = precedence_directive AssocNonassoc d s"
| "Sink_Directive_kind _ d s = store_directive d s"

definition Sink_Directive :: "Directive \<Rightarrow> BuilderSink \<Rightarrow> BuilderSink" where
  "Sink_Directive d s = Sink_Directive_kind (Directive_Kind d) d s"

definition Sink_BeginRule :: "SymRef \<Rightarrow> BuilderSink \<Rightarrow> BuilderSink" where
  "Sink_BeginRule lhs s =
     (let s1 = (case curRule s of
                  Some rb \<Rightarrow>
                    s\<lparr>B := warn (SymRef_At lhs)
                              ''begin rule while previous rule still open; closing previous rule'' [] (B s),
                      curRule := None, curLHS := None\<rparr>
                | None \<Rightarrow> s);
          name = TrimSpace (SymRef_Name lhs)
      in if name = []
         then s1\<lparr>B := error (SymRef_At lhs) ''rule LHS is empty'' [] (B s1)\<rparr>
         else (let (b1, p) = EnsureNonterminal name (SymRef_At lhs) (B s1);
                   b2 = (case declTypes s1 name of
                           Some tt \<Rightarrow> if tt \<noteq> [] then SetTypeTag (Some p) tt (SymRef_At lhs) b1 else b1
                         | None \<Rightarrow> b1);
                   (b3, rb) = BeginRule (Some p) (SymRef_At lhs) b2
               in s1\<lparr>B := b3, curLHS := Some p, curRule := Some rb\<rparr>))"

definition alt_rhs_step :: "BuilderSink \<times> SymbolRef option list \<Rightarrow> SymRef \<Rightarrow>
    BuilderSink \<times> SymbolRef option list" where
  "alt_rhs_step st sr =
     (let (s, rhs) = st;
          (s1, p) = resolveSymbolInRHS sr s;
          b2 = (if SymRef_TypeTag sr \<noteq> []
                then SetTypeTag (Some p) (SymRef_TypeTag sr) (SymRef_At sr) (B s1)
                else B s1);
          (b3, ref) = NewRef (Some p) (SymRef_Label sr) (SymRef_At sr) b2
      in (s1\<lparr>B := b3\<rparr>, rhs @ [Some ref]))"

definition Sink_Alternative :: "Alt \<Rightarrow> BuilderSink \<Rightarrow> BuilderSink" where
  "Sink_Alternative alt s =
     (if curRule s = None \<or> curLHS s = None
      then s\<lparr>B := error (Alt_At alt) ''alternative encountered without an open rule'' [] (B s)\<rparr>
      else
        (let (s1, rhs) = foldl alt_rhs_step (s, []) (Alt_RHS alt);
             (s2, prec) =
               (case Prec alt of
                  None \<Rightarrow> (s1, None)
                | Some ps \<Rightarrow>
                    (let name = TrimSpace (SymRef_Name ps) in
                     if name = []
                     then (s1\<lparr>B := error (SymRef_At ps) ''precedence override symbol is empty'' [] (B s1)\<rparr>,
                           None)
                     else (let (b1, p) = EnsureTerminal name (SymRef_At ps) (B s1)
                           in (s1\<lparr>declTokens := (declTokens s1)(name := True), B := b1\<rparr>, Some p))))
         in s2\<lparr>B := Alt (curRule s2) rhs (Alt_Action alt) prec (Alt_At alt) (B s2)\<rparr>))"

definition Sink_EndRule :: "Span option \<Rightarrow> BuilderSink \<Rightarrow> BuilderSink" where
  "Sink_EndRule at s = (if curRule s = None then s else s\<lparr>curRule := None, curLHS := None\<rparr>)"

section \<open>Sequences of builder operations\<close>

text \<open>
  The methods that change a builder, as a datatype of calls with their arguments;
  \<^verbatim>\<open>EnsureTerminal\<close> and \<^verbatim>\<open>EnsureNonterminal\<close> are \<open>OpIntern\<close> with the kind fixed.
  Pointer arguments are arbitrary. \<open>run_ops\<close> applies a sequence of calls to a new builder.
\<close>

datatype BuilderOp =
    OpIntern string SymbolKind "Span option"
  | OpSetTypeTag "nat option" string "Span option"
  | OpSetStart "nat option" "Span option"
  | OpDefinePrecedenceGroup Assoc "nat option list" "Span option"
  | OpBeginRule "nat option" "Span option"
  | OpAlt "RuleBuilder option" "SymbolRef option list" "Action option" "nat option" "Span option"
  | OpNewRef "nat option" string "Span option"
  | OpSetDirective string string "Span option"
  | OpError "Span option" string "Arg list"
  | OpWarn "Span option" string "Arg list"
  | OpFinalize

fun apply_op :: "Builder \<Rightarrow> BuilderOp \<Rightarrow> Builder" where
  "apply_op b (OpIntern name kind at) = fst (Intern name kind at b)"
| "apply_op b (OpSetTypeTag p typeTag at) = SetTypeTag p typeTag at b"
| "apply_op b (OpSetStart p at) = SetStart p at b"
| "apply_op b (OpDefinePrecedenceGroup assoc terminals at) = DefinePrecedenceGroup assoc terminals at b"
| "apply_op b (OpBeginRule lhs at) = fst (BeginRule lhs at b)"
| "apply_op b (OpAlt rb rhs action prec at) = Alt rb rhs action prec at b"
| "apply_op b (OpNewRef p label at) = fst (NewRef p label at b)"
| "apply_op b (OpSetDirective key val at) = SetDirective key val at b"
| "apply_op b (OpError at msg args) = error at msg args b"
| "apply_op b (OpWarn at msg args) = warn at msg args b"
| "apply_op b OpFinalize = Finalize b"

definition run_ops :: "BuilderOp list \<Rightarrow> Builder" where
  "run_ops ops = foldl apply_op (NewBuilder []) ops"

text \<open>The events of the sink interface, and a sequence of them sent to a new sink.\<close>

datatype Event =
    EvDirective Directive
  | EvBeginRule SymRef
  | EvAlternative Alt
  | EvEndRule "Span option"
  | EvParserError "Span option" string

fun event :: "BuilderSink \<Rightarrow> Event \<Rightarrow> BuilderSink" where
  "event s (EvDirective d) = Sink_Directive d s"
| "event s (EvBeginRule lhs) = Sink_BeginRule lhs s"
| "event s (EvAlternative alt) = Sink_Alternative alt s"
| "event s (EvEndRule at) = Sink_EndRule at s"
| "event s (EvParserError at msg) = Sink_ParserError at msg s"

definition run_events :: "Event list \<Rightarrow> BuilderSink" where
  "run_events evs = foldl event (NewBuilderSink (NewBuilder [])) evs"


text \<open>\<open>diags_grow b b'\<close>: the diagnostics of \<open>b'\<close> are those of \<open>b\<close> followed by new ones.\<close>

definition diags_grow :: "Builder \<Rightarrow> Builder \<Rightarrow> bool" where
  "diags_grow b b' = (\<exists>ds. diags b' = diags b @ ds)"


text \<open>The uppercase and the lowercase ASCII letters.\<close>

definition ascii_upper :: "char \<Rightarrow> bool" where
  "ascii_upper c = (65 \<le> (of_char c :: nat) \<and> (of_char c :: nat) \<le> 90)"

definition ascii_lower :: "char \<Rightarrow> bool" where
  "ascii_lower c = (97 \<le> (of_char c :: nat) \<and> (of_char c :: nat) \<le> 122)"

section \<open>Invariants of the symbol table\<close>

definition dense :: "Grammar \<Rightarrow> bool" where
  "dense G = (\<forall>i < length (Symbols G). ID (Symbols G ! i) = i)"

definition by_name_ok :: "Grammar \<Rightarrow> bool" where
  "by_name_ok G =
     (\<forall>n p. SymbolsByName G n = Some p \<longrightarrow> p < length (Symbols G) \<and> Name (Symbols G ! p) = n)"

definition Format :: "Diagnostic \<Rightarrow> string" where
  "Format d = (case Msg d of Sprintf f args \<Rightarrow> f)"

text \<open>
  \<open>adds P b b'\<close>: the builder \<open>b'\<close> is \<open>b\<close> with diagnostics appended that all satisfy
  \<open>P\<close>; \<open>new_diags b b'\<close> are the diagnostics appended.
\<close>

definition adds :: "(Diagnostic \<Rightarrow> bool) \<Rightarrow> Builder \<Rightarrow> Builder \<Rightarrow> bool" where
  "adds P b b' = (g b' = g b \<and> precedenceCounter b' = precedenceCounter b \<and>
                   (\<exists>ds. diags b' = diags b @ ds \<and> (\<forall>d \<in> set ds. P d)))"

definition new_diags :: "Builder \<Rightarrow> Builder \<Rightarrow> Diagnostic list" where
  "new_diags b b' = drop (length (diags b)) (diags b')"

text \<open>
  What holds of every diagnostic of \<^verbatim>\<open>Finalize\<close>: its warnings carry one of six format
  strings, and the format string of the rule without alternatives comes as a warning only.
\<close>

definition finalize_diag :: "Diagnostic \<Rightarrow> bool" where
  "finalize_diag d =
     ((Level d = DiagWarn \<longrightarrow>
         Format d \<in> {''rule %q has no alternatives'',
                     ''precedence override uses %q, but it has no precedence (missing %%left/%%right/%%nonassoc?)'',
                     ''nonterminal %q has rules but is unreachable from start symbol %q'',
                     ''terminal %q is declared but never used'',
                     ''nonterminal %q has rules but is never referenced (except as LHS)'',
                     ''nonterminal %q is declared but never used and has no rules''})
      \<and> (Format d = ''rule %q has no alternatives'' \<longrightarrow> Level d = DiagWarn))"

section \<open>Productivity, as the specification words it\<close>

text \<open>
  Terminals are productive; a nonterminal becomes productive when some rule's right-hand
  side is entirely productive. The source has no counterpart of this definition; it is
  used to state what \<^verbatim>\<open>Finalize\<close> does on a grammar with a non-productive nonterminal.
\<close>

inductive productive :: "Grammar \<Rightarrow> nat \<Rightarrow> bool" for G :: Grammar where
  terminal: "p < length (Symbols G) \<Longrightarrow> Kind (Symbols G ! p) = SymTerminal \<Longrightarrow> productive G p"
| rule: "Some r \<in> set (Rules G) \<Longrightarrow> LHS r = Some p \<Longrightarrow> Some alt \<in> set (Alternatives r) \<Longrightarrow>
         (\<forall>sr \<in> set (RHS alt). \<exists>srv q. sr = Some srv \<and> Sym srv = Some q \<and> productive G q) \<Longrightarrow>
         productive G p"

section \<open>Example grammars\<close>

definition plain_ref :: "nat \<Rightarrow> SymbolRef option" where
  "plain_ref p = Some \<lparr>Sym = Some p, Label = [], SymbolRef_At = None\<rparr>"

definition first_rule :: "RuleBuilder option" where
  "first_rule = Some \<lparr>rb_rule = Some 0, rb_done = False\<rparr>"

text \<open>\<^verbatim>\<open>s ::= s A. s ::= A.\<close>\<close>

definition list_grammar_ops :: "BuilderOp list" where
  "list_grammar_ops =
     [OpIntern ''s'' SymNonterminal None, OpIntern ''A'' SymTerminal None,
      OpBeginRule (Some 0) None,
      OpAlt first_rule [plain_ref 0, plain_ref 1] None None None,
      OpAlt first_rule [plain_ref 1] None None None,
      OpFinalize]"

text \<open>\<^verbatim>\<open>loop ::= loop.\<close>\<close>

definition loop_grammar_ops :: "BuilderOp list" where
  "loop_grammar_ops =
     [OpIntern ''loop'' SymNonterminal None,
      OpBeginRule (Some 0) None,
      OpAlt first_rule [plain_ref 0] None None None,
      OpFinalize]"

text \<open>A rule for \<^verbatim>\<open>s\<close> that is begun and gets no alternative.\<close>

definition empty_rule_ops :: "BuilderOp list" where
  "empty_rule_ops =
     [OpIntern ''s'' SymNonterminal None,
      OpBeginRule (Some 0) None,
      OpFinalize]"

text \<open>A nonterminal \<^verbatim>\<open>e\<close> with the type tag \<^verbatim>\<open>int\<close>.\<close>

definition typed_symbol_ops :: "BuilderOp list" where
  "typed_symbol_ops = [OpIntern ''e'' SymNonterminal None, OpSetTypeTag (Some 0) ''int'' None]"




definition token_directive :: "string \<Rightarrow> Directive" where
  "token_directive name =
     \<lparr>Directive_Kind = DirToken, Directive_At = None, Key = [], Value = name, Directive_List = []\<rparr>"

definition sym_ref :: "string \<Rightarrow> SymRef" where
  "sym_ref name = \<lparr>SymRef_Name = name, SymRef_At = None, SymRef_Label = [], SymRef_TypeTag = []\<rparr>"

text \<open>The rule \<^verbatim>\<open>x ::= .\<close> is begun and ended, then \<^verbatim>\<open>%token x.\<close> is read.\<close>

definition declared_then_used_events :: "Event list" where
  "declared_then_used_events =
     [EvBeginRule (sym_ref ''x''), EvEndRule None, EvDirective (token_directive ''x'')]"

section \<open>Basic facts\<close>

lemma error_g [simp]: "g (error at m a b) = g b"
  and error_pc [simp]: "precedenceCounter (error at m a b) = precedenceCounter b"
  and error_diags: "diags (error at m a b) = diags b @ [\<lparr>Level = DiagError, Msg = Sprintf m a, At = at\<rparr>]"
  by (simp_all add: error_def)

lemma warn_g [simp]: "g (warn at m a b) = g b"
  and warn_pc [simp]: "precedenceCounter (warn at m a b) = precedenceCounter b"
  and warn_diags: "diags (warn at m a b) = diags b @ [\<lparr>Level = DiagWarn, Msg = Sprintf m a, At = at\<rparr>]"
  by (simp_all add: warn_def)

lemma check_rhs_g [simp]: "g (check_rhs at i rhs b) = g b"
  by (induction rhs arbitrary: i b) simp_all

lemma TrimSpace_idem [simp]: "TrimSpace (TrimSpace s) = TrimSpace s"
proof -
  define a where "a = dropWhile IsSpace s"
  define b where "b = dropWhile IsSpace (rev a)"
  have t: "TrimSpace s = rev b" by (simp add: TrimSpace_def a_def b_def)
  have "rev a = takeWhile IsSpace (rev a) @ b" by (simp add: b_def)
  then have a: "a = rev b @ rev (takeWhile IsSpace (rev a))"
    by (metis rev_append rev_rev_ident)
  have "dropWhile IsSpace (rev b) = rev b"
  proof (cases "rev b = []")
    case True
    then show ?thesis by simp
  next
    case False
    then have "hd (rev b) = hd a" using a by (metis hd_append2)
    moreover have "a \<noteq> []" using a False by auto
    then have "\<not> IsSpace (hd a)" unfolding a_def by (rule hd_dropWhile)
    ultimately show ?thesis using False by (cases "rev b") auto
  qed
  then have "TrimSpace (rev b) = rev (dropWhile IsSpace b)" by (simp add: TrimSpace_def)
  also have "\<dots> = rev b" by (simp add: b_def)
  finally show ?thesis by (simp add: t)
qed

lemma foldl_inv: "P b \<Longrightarrow> (\<And>b x. P b \<Longrightarrow> P (f b x)) \<Longrightarrow> P (foldl f b xs)"
  by (induction xs arbitrary: b) simp_all

lemma internDummy_Intern:
  "internDummy at b =
     (case SymbolsByName (g b) ''<invalid>'' of
        Some p \<Rightarrow> (b, p)
      | None \<Rightarrow> Intern ''<invalid>'' SymNonterminal at b)"
proof -
  have "TrimSpace ''<invalid>'' = ''<invalid>''"
    by (simp add: TrimSpace_def IsSpace_def)
  then have "Intern ''<invalid>'' SymNonterminal at b = intern_trimmed ''<invalid>'' SymNonterminal at b"
    by (simp add: Intern_def)
  then show ?thesis
    by (simp add: internDummy_def split: option.splits)
qed

subsection \<open>Finalize only appends diagnostics\<close>

lemma adds_refl [simp]: "adds P b b"
  by (simp add: adds_def)

lemma adds_trans: "adds P b b1 \<Longrightarrow> adds P b1 b2 \<Longrightarrow> adds P b b2"
  by (auto simp add: adds_def)

lemma adds_error: "P \<lparr>Level = DiagError, Msg = Sprintf m a, At = at\<rparr> \<Longrightarrow> adds P b (error at m a b)"
  by (simp add: adds_def error_def)

lemma adds_warn: "P \<lparr>Level = DiagWarn, Msg = Sprintf m a, At = at\<rparr> \<Longrightarrow> adds P b (warn at m a b)"
  by (simp add: adds_def warn_def)

lemma adds_g: "adds P b b' \<Longrightarrow> g b' = g b"
  by (simp add: adds_def)

lemma adds_foldl:
  assumes "\<And>b x. adds P b (f b x)"
  shows "adds P b (foldl f b xs)"
proof (induction xs arbitrary: b)
  case Nil
  show ?case by simp
next
  case (Cons x xs)
  show ?case using adds_trans [OF assms [of b x] Cons.IH [of "f b x"]] by simp
qed

lemma adds_foldl_fst:
  assumes "\<And>st x. adds P (fst st) (fst (f st x))"
  shows "adds P (fst st) (fst (foldl f st xs))"
proof (induction xs arbitrary: st)
  case Nil
  show ?case by simp
next
  case (Cons x xs)
  show ?case using adds_trans [OF assms [of st x] Cons.IH [of "f st x"]] by simp
qed

lemma lhs_step_adds: "adds finalize_diag (fst st) (fst (lhs_step st r))"
  by (cases st) (auto simp add: lhs_step_def finalize_diag_def Format_def split: option.splits
      intro!: adds_error)

lemma rhs_loop_adds: "adds finalize_diag (fst st) (fst (rhs_loop l alt pos rhs st))"
proof (induction rhs arbitrary: pos st)
  case Nil
  show ?case by simp
next
  case (Cons sr rhs)
  obtain b used edges where st: "st = (b, used, edges)" by (cases st)
  show ?case unfolding st rhs_loop.simps
    by (rule adds_trans [OF _ Cons.IH])
       (auto simp add: finalize_diag_def Format_def split: option.splits intro!: adds_error)
qed

lemma alt_step_adds: "adds finalize_diag (fst st) (fst (alt_step r l st alt))"
proof -
  obtain b used edges where st: "st = (b, used, edges)" by (cases st)
  show ?thesis
  proof (cases alt)
    case None
    then show ?thesis
      by (auto simp add: st alt_step_def finalize_diag_def Format_def intro!: adds_error)
  next
    case (Some a)
    obtain b1 used1 edges1 where r: "rhs_loop l a 0 (RHS a) (b, used, edges) = (b1, used1, edges1)"
      by (cases "rhs_loop l a 0 (RHS a) (b, used, edges)")
    have 1: "adds finalize_diag b b1" using rhs_loop_adds [of "(b, used, edges)" l a 0 "RHS a"] r by simp
    show ?thesis
      by (auto simp add: st Some alt_step_def r finalize_diag_def Format_def split: option.splits
          intro!: adds_trans [OF 1] adds_error adds_warn)
  qed
qed

lemma rule_step_adds: "adds finalize_diag (fst st) (fst (rule_step st r))"
proof -
  obtain b used edges where st: "st = (b, used, edges)" by (cases st)
  show ?thesis
    using adds_foldl_fst [of finalize_diag "alt_step rv l" st for rv l, OF alt_step_adds]
    by (auto simp add: st rule_step_def finalize_diag_def Format_def split: option.splits
        intro!: adds_warn)
qed

lemma undefined_step_adds: "adds finalize_diag b (undefined_step lhsHasRule b p)"
  by (auto simp add: undefined_step_def finalize_diag_def Format_def intro!: adds_error)

lemma unreachable_step_adds: "adds finalize_diag b (unreachable_step reachable start b nt)"
  by (auto simp add: unreachable_step_def finalize_diag_def Format_def intro!: adds_warn)

lemma unused_step_adds: "adds finalize_diag b (unused_step used lhsHasRule b p)"
  by (auto simp add: unused_step_def Let_def finalize_diag_def Format_def split: SymbolKind.splits
      intro!: adds_warn)



lemma adds_new_diags: "adds P b b' \<Longrightarrow> diags b' = diags b @ new_diags b b'"
  and adds_new_diags_P: "adds P b b' \<Longrightarrow> d \<in> set (new_diags b b') \<Longrightarrow> P d"
  by (auto simp add: adds_def new_diags_def)

lemma new_diags_trans:
  "adds P b b1 \<Longrightarrow> adds P b1 b2 \<Longrightarrow> new_diags b b2 = new_diags b b1 @ new_diags b1 b2"
  by (auto simp add: adds_def new_diags_def)

lemma new_diags_error: "new_diags b (error at m a b) = [\<lparr>Level = DiagError, Msg = Sprintf m a, At = at\<rparr>]"
  and new_diags_warn: "new_diags b (warn at m a b) = [\<lparr>Level = DiagWarn, Msg = Sprintf m a, At = at\<rparr>]"
  and new_diags_refl: "new_diags b b = []"
  by (simp_all add: new_diags_def error_def warn_def)

lemma Finalize_stages:
  assumes "Rules (g b) \<noteq> []"
  shows "\<exists>b1 b2 b3 used edges.
           adds finalize_diag b b1 \<and> adds finalize_diag b1 b2 \<and>
           foldl rule_step (b2, [], []) (Rules (g b)) = (b3, used, edges) \<and>
           adds finalize_diag b2 b3 \<and> adds finalize_diag b3 (Finalize b)"
proof -
  define b1 where "b1 = (case Start (g b) of
                     None \<Rightarrow> error None ''start symbol is not set and could not be inferred'' [] b
                   | Some s \<Rightarrow>
                       if Kind (Symbols (g b) ! s) \<noteq> SymNonterminal
                       then error (DeclaredAt (Symbols (g b) ! s)) ''start symbol %q must be a nonterminal''
                              [ArgS (Name (Symbols (g b) ! s))] b
                       else b)"
  have a1: "adds finalize_diag b b1"
    by (auto simp add: b1_def finalize_diag_def Format_def split: option.splits intro!: adds_error)
  obtain b2 lhsHasRule where 2: "foldl lhs_step (b1, []) (Rules (g b1)) = (b2, lhsHasRule)"
    by (cases "foldl lhs_step (b1, []) (Rules (g b1))")
  have a2: "adds finalize_diag b1 b2"
    using adds_foldl_fst [of finalize_diag lhs_step "(b1, [])" "Rules (g b1)", OF lhs_step_adds] 2 by simp
  obtain b3 used edges where 3: "foldl rule_step (b2, [], []) (Rules (g b2)) = (b3, used, edges)"
    by (cases "foldl rule_step (b2, [], []) (Rules (g b2))")
  have a3: "adds finalize_diag b2 b3"
    using adds_foldl_fst [of finalize_diag rule_step "(b2, [], [])" "Rules (g b2)", OF rule_step_adds] 3 by simp
  define b4 where "b4 = foldl (undefined_step lhsHasRule) b3 (remdups used)"
  have a4: "adds finalize_diag b3 b4"
    unfolding b4_def by (rule adds_foldl [OF undefined_step_adds])
  define b5 where "b5 = (case Start (g b4) of
                     None \<Rightarrow> b4
                   | Some s \<Rightarrow>
                       if Kind (Symbols (g b4) ! s) = SymNonterminal
                       then foldl (unreachable_step (reach (Symbols (g b4)) edges [s] [s]) s) b4
                              (remdups lhsHasRule)
                       else b4)"
  have a5: "adds finalize_diag b4 b5"
    unfolding b5_def by (auto split: option.splits intro!: adds_foldl [OF unreachable_step_adds])
  have a6: "adds finalize_diag b5 (foldl (unused_step used lhsHasRule) b5 [0..<length (Symbols (g b5))])"
    by (rule adds_foldl [OF unused_step_adds])
  have "Finalize b = foldl (unused_step used lhsHasRule) b5 [0..<length (Symbols (g b5))]"
    using assms 2 3 unfolding Finalize_def Let_def b1_def [symmetric] b5_def b4_def
    by simp
  then have "adds finalize_diag b3 (Finalize b)"
    using a4 a5 a6 by (metis adds_trans)
  moreover have "Rules (g b2) = Rules (g b)"
    using a1 a2 by (simp add: adds_def)
  ultimately show ?thesis using a1 a2 a3 3 by metis
qed

lemma Finalize_adds: "adds finalize_diag b (Finalize b)"
proof (cases "Rules (g b) = []")
  case True
  then show ?thesis
    by (auto simp add: Finalize_def finalize_diag_def Format_def intro!: adds_error)
next
  case False
  from Finalize_stages [OF this] show ?thesis by (metis adds_trans)
qed

lemma foldl_rule_step_no_alternatives:
  assumes "Some r \<in> set rs" "LHS r = Some l" "Alternatives r = []"
  shows "\<lparr>Level = DiagWarn,
          Msg = Sprintf ''rule %q has no alternatives'' [ArgS (Name (Symbols (g (fst st)) ! l))],
          At = Rule_At r\<rparr> \<in> set (new_diags (fst st) (fst (foldl rule_step st rs)))"
  using assms(1)
proof (induction rs arbitrary: st)
  case Nil
  then show ?case by simp
next
  case (Cons x rs)
  let ?st = "rule_step st x"
  have a: "adds finalize_diag (fst st) (fst ?st)" by (rule rule_step_adds)
  have a': "adds finalize_diag (fst ?st) (fst (foldl rule_step ?st rs))"
    by (rule adds_foldl_fst [OF rule_step_adds])
  have split: "new_diags (fst st) (fst (foldl rule_step st (x # rs)))
      = new_diags (fst st) (fst ?st) @ new_diags (fst ?st) (fst (foldl rule_step ?st rs))"
    using new_diags_trans [OF a a'] by simp
  show ?case
  proof (cases "x = Some r")
    case True
    obtain b used edges where st: "st = (b, used, edges)" by (cases st)
    show ?thesis unfolding split
      using assms(2,3) by (simp add: True st rule_step_def new_diags_warn)
  next
    case False
    with Cons.prems have "Some r \<in> set rs" by simp
    from Cons.IH [OF this, of ?st] show ?thesis
      unfolding split using adds_g [OF a] by simp
  qed
qed



subsection \<open>The operations keep the symbol table well formed\<close>

lemma dense_append:
  "dense G \<Longrightarrow> ID s = length (Symbols G) \<Longrightarrow>
   dense (G\<lparr>Symbols := Symbols G @ [s], SymbolsByName := m\<rparr>)"
  by (auto simp add: dense_def nth_append less_Suc_eq)

lemma by_name_ok_append:
  "by_name_ok G \<Longrightarrow> Name s = n \<Longrightarrow>
   by_name_ok (G\<lparr>Symbols := Symbols G @ [s], SymbolsByName := (SymbolsByName G)(n \<mapsto> length (Symbols G))\<rparr>)"
  by (auto simp add: by_name_ok_def nth_append less_Suc_eq)

lemma dense_update:
  "dense G \<Longrightarrow> ID s = ID (Symbols G ! p) \<Longrightarrow> dense (G\<lparr>Symbols := (Symbols G)[p := s]\<rparr>)"
  by (cases "p < length (Symbols G)") (auto simp add: dense_def nth_list_update not_less list_update_beyond)

lemma by_name_ok_update:
  "by_name_ok G \<Longrightarrow> Name s = Name (Symbols G ! p) \<Longrightarrow> by_name_ok (G\<lparr>Symbols := (Symbols G)[p := s]\<rparr>)"
  by (cases "p < length (Symbols G)")
     (auto simp add: by_name_ok_def nth_list_update not_less list_update_beyond)

lemma dense_fields [simp]:
  "dense (G\<lparr>Start := st\<rparr>) = dense G"
  "dense (G\<lparr>Rules := rs\<rparr>) = dense G"
  "dense (G\<lparr>Directives := ds\<rparr>) = dense G"
  by (simp_all add: dense_def)

lemma by_name_ok_fields [simp]:
  "by_name_ok (G\<lparr>Start := st\<rparr>) = by_name_ok G"
  "by_name_ok (G\<lparr>Rules := rs\<rparr>) = by_name_ok G"
  "by_name_ok (G\<lparr>Directives := ds\<rparr>) = by_name_ok G"
  by (simp_all add: by_name_ok_def)

lemma intern_trimmed_dense: "dense (g b) \<Longrightarrow> dense (g (fst (intern_trimmed n k at b)))"
  by (auto simp add: intern_trimmed_def Let_def split: option.splits intro!: dense_append)

lemma internDummy_dense: "dense (g b) \<Longrightarrow> dense (g (fst (internDummy at b)))"
  by (auto simp add: internDummy_def intern_trimmed_dense split: option.splits)

lemma Intern_dense: "dense (g b) \<Longrightarrow> dense (g (fst (Intern n k at b)))"
  by (simp add: Intern_def intern_trimmed_dense internDummy_dense)

lemma SetTypeTag_dense: "dense (g b) \<Longrightarrow> dense (g (SetTypeTag p t at b))"
  by (auto simp add: SetTypeTag_def split: option.splits intro!: dense_update)

lemma SetStart_dense: "dense (g b) \<Longrightarrow> dense (g (SetStart p at b))"
  by (auto simp add: SetStart_def Let_def split: option.splits)

lemma precedence_step_dense: "dense (g b) \<Longrightarrow> dense (g (precedence_step a l at b t))"
  by (auto simp add: precedence_step_def split: option.splits intro!: dense_update)

lemma DefinePrecedenceGroup_dense: "dense (g b) \<Longrightarrow> dense (g (DefinePrecedenceGroup a ts at b))"
  unfolding DefinePrecedenceGroup_def Let_def
  by (auto intro!: foldl_inv [where P = "\<lambda>b. dense (g b)"] precedence_step_dense)

lemma BeginRule_dense: "dense (g b) \<Longrightarrow> dense (g (fst (BeginRule l at b)))"
  by (auto simp add: BeginRule_def Let_def internDummy_dense split: option.splits prod.splits
      dest: internDummy_dense [of b at])

lemma Alt_dense: "dense (g b) \<Longrightarrow> dense (g (Alt rb rhs a p at b))"
  by (auto simp add: Alt_def Let_def split: option.splits prod.splits if_splits)

lemma NewRef_dense: "dense (g b) \<Longrightarrow> dense (g (fst (NewRef p l at b)))"
  by (auto simp add: NewRef_def Let_def split: option.splits prod.splits dest: internDummy_dense [of b at])

lemma SetDirective_dense: "dense (g b) \<Longrightarrow> dense (g (SetDirective k v at b))"
  by (auto simp add: SetDirective_def Let_def)

lemma Finalize_dense: "dense (g b) \<Longrightarrow> dense (g (Finalize b))"
  using Finalize_adds [of b] by (simp add: adds_def)

lemma apply_op_dense: "dense (g b) \<Longrightarrow> dense (g (apply_op b op))"
  by (cases op)
     (simp_all add: Intern_dense SetTypeTag_dense SetStart_dense DefinePrecedenceGroup_dense BeginRule_dense
        Alt_dense NewRef_dense SetDirective_dense Finalize_dense)

lemma run_ops_dense: "dense (g (run_ops ops))"
  unfolding run_ops_def
proof (rule foldl_inv [where P = "\<lambda>b. dense (g b)"])
  show "dense (g (NewBuilder []))" by (simp add: dense_def NewBuilder_def)
qed (rule apply_op_dense)

lemma intern_trimmed_by_name_ok: "by_name_ok (g b) \<Longrightarrow> by_name_ok (g (fst (intern_trimmed n k at b)))"
  by (auto simp add: intern_trimmed_def Let_def split: option.splits intro!: by_name_ok_append)

lemma internDummy_by_name_ok: "by_name_ok (g b) \<Longrightarrow> by_name_ok (g (fst (internDummy at b)))"
  by (auto simp add: internDummy_def intern_trimmed_by_name_ok split: option.splits)

lemma Intern_by_name_ok: "by_name_ok (g b) \<Longrightarrow> by_name_ok (g (fst (Intern n k at b)))"
  by (simp add: Intern_def intern_trimmed_by_name_ok internDummy_by_name_ok)

lemma SetTypeTag_by_name_ok: "by_name_ok (g b) \<Longrightarrow> by_name_ok (g (SetTypeTag p t at b))"
  by (auto simp add: SetTypeTag_def split: option.splits intro!: by_name_ok_update)

lemma SetStart_by_name_ok: "by_name_ok (g b) \<Longrightarrow> by_name_ok (g (SetStart p at b))"
  by (auto simp add: SetStart_def Let_def split: option.splits)

lemma precedence_step_by_name_ok: "by_name_ok (g b) \<Longrightarrow> by_name_ok (g (precedence_step a l at b t))"
  by (auto simp add: precedence_step_def split: option.splits intro!: by_name_ok_update)

lemma DefinePrecedenceGroup_by_name_ok: "by_name_ok (g b) \<Longrightarrow> by_name_ok (g (DefinePrecedenceGroup a ts at b))"
  unfolding DefinePrecedenceGroup_def Let_def
  by (auto intro!: foldl_inv [where P = "\<lambda>b. by_name_ok (g b)"] precedence_step_by_name_ok)

lemma BeginRule_by_name_ok: "by_name_ok (g b) \<Longrightarrow> by_name_ok (g (fst (BeginRule l at b)))"
  by (auto simp add: BeginRule_def Let_def internDummy_by_name_ok split: option.splits prod.splits
      dest: internDummy_by_name_ok [of b at])

lemma Alt_by_name_ok: "by_name_ok (g b) \<Longrightarrow> by_name_ok (g (Alt rb rhs a p at b))"
  by (auto simp add: Alt_def Let_def split: option.splits prod.splits if_splits)

lemma NewRef_by_name_ok: "by_name_ok (g b) \<Longrightarrow> by_name_ok (g (fst (NewRef p l at b)))"
  by (auto simp add: NewRef_def Let_def split: option.splits prod.splits dest: internDummy_by_name_ok [of b at])

lemma SetDirective_by_name_ok: "by_name_ok (g b) \<Longrightarrow> by_name_ok (g (SetDirective k v at b))"
  by (auto simp add: SetDirective_def Let_def)

lemma Finalize_by_name_ok: "by_name_ok (g b) \<Longrightarrow> by_name_ok (g (Finalize b))"
  using Finalize_adds [of b] by (simp add: adds_def)

lemma apply_op_by_name_ok: "by_name_ok (g b) \<Longrightarrow> by_name_ok (g (apply_op b op))"
  by (cases op)
     (simp_all add: Intern_by_name_ok SetTypeTag_by_name_ok SetStart_by_name_ok DefinePrecedenceGroup_by_name_ok BeginRule_by_name_ok
        Alt_by_name_ok NewRef_by_name_ok SetDirective_by_name_ok Finalize_by_name_ok)

lemma run_ops_by_name_ok: "by_name_ok (g (run_ops ops))"
  unfolding run_ops_def
proof (rule foldl_inv [where P = "\<lambda>b. by_name_ok (g b)"])
  show "by_name_ok (g (NewBuilder []))" by (simp add: by_name_ok_def NewBuilder_def)
qed (rule apply_op_by_name_ok)

subsection \<open>The precedence counter and the loop over a precedence group\<close>

lemma intern_trimmed_pc [simp]: "precedenceCounter (fst (intern_trimmed n k at b)) = precedenceCounter b"
  by (simp add: intern_trimmed_def Let_def split: option.splits)

lemma internDummy_pc [simp]: "precedenceCounter (fst (internDummy at b)) = precedenceCounter b"
  by (simp add: internDummy_def split: option.splits)

lemma Intern_pc [simp]: "precedenceCounter (fst (Intern n k at b)) = precedenceCounter b"
  by (simp add: Intern_def)

lemma SetTypeTag_pc [simp]: "precedenceCounter (SetTypeTag p t at b) = precedenceCounter b"
  by (simp add: SetTypeTag_def split: option.splits)

lemma SetStart_pc [simp]: "precedenceCounter (SetStart p at b) = precedenceCounter b"
  by (simp add: SetStart_def Let_def split: option.splits)

lemma precedence_step_pc [simp]: "precedenceCounter (precedence_step a l at b t) = precedenceCounter b"
  by (simp add: precedence_step_def split: option.splits)

lemma foldl_precedence_step_pc [simp]:
  "precedenceCounter (foldl (precedence_step a l at) b ts) = precedenceCounter b"
  by (induction ts arbitrary: b) simp_all


lemma check_rhs_pc [simp]: "precedenceCounter (check_rhs at i rhs b) = precedenceCounter b"
  by (induction rhs arbitrary: i b) simp_all

lemma internDummy_pcD: "internDummy at b = (b1, p) \<Longrightarrow> precedenceCounter b1 = precedenceCounter b"
  using internDummy_pc [of at b] by simp

lemma BeginRule_pc [simp]: "precedenceCounter (fst (BeginRule l at b)) = precedenceCounter b"
  by (auto simp add: BeginRule_def Let_def split: option.splits prod.splits dest: internDummy_pcD)

lemma Alt_pc [simp]: "precedenceCounter (Alt rb rhs a p at b) = precedenceCounter b"
  by (simp add: Alt_def Let_def split: option.splits prod.splits)

lemma NewRef_pc [simp]: "precedenceCounter (fst (NewRef p l at b)) = precedenceCounter b"
  by (auto simp add: NewRef_def Let_def split: option.splits prod.splits dest: internDummy_pcD)

lemma SetDirective_pc [simp]: "precedenceCounter (SetDirective k v at b) = precedenceCounter b"
  by (simp add: SetDirective_def Let_def)

lemma Finalize_pc [simp]: "precedenceCounter (Finalize b) = precedenceCounter b"
  using Finalize_adds [of b] by (simp add: adds_def)




lemma diags_grow_refl [simp]: "diags_grow b b"
  by (simp add: diags_grow_def)






lemma precedence_step_length [simp]:
  "length (Symbols (g (precedence_step a l at b t))) = length (Symbols (g b))"
  by (simp add: precedence_step_def split: option.splits)





subsection \<open>What changes the start symbol\<close>

lemma intern_trimmed_Start [simp]: "Start (g (fst (intern_trimmed n k at b))) = Start (g b)"
  by (simp add: intern_trimmed_def Let_def split: option.splits)

lemma internDummy_Start [simp]: "Start (g (fst (internDummy at b))) = Start (g b)"
  by (simp add: internDummy_def split: option.splits)

lemma internDummy_StartD: "internDummy at b = (b1, p) \<Longrightarrow> Start (g b1) = Start (g b)"
  using internDummy_Start [of at b] by simp

lemma Intern_Start [simp]: "Start (g (fst (Intern n k at b))) = Start (g b)"
  by (simp add: Intern_def)

lemma SetTypeTag_Start [simp]: "Start (g (SetTypeTag p t at b)) = Start (g b)"
  by (simp add: SetTypeTag_def split: option.splits)

lemma precedence_step_Start [simp]: "Start (g (precedence_step a l at b t)) = Start (g b)"
  by (simp add: precedence_step_def split: option.splits)

lemma foldl_precedence_step_Start [simp]:
  "Start (g (foldl (precedence_step a l at) b ts)) = Start (g b)"
  by (induction ts arbitrary: b) simp_all

lemma DefinePrecedenceGroup_Start [simp]: "Start (g (DefinePrecedenceGroup a ts at b)) = Start (g b)"
  by (simp add: DefinePrecedenceGroup_def Let_def)

lemma Alt_Start [simp]: "Start (g (Alt rb rhs a p at b)) = Start (g b)"
  by (simp add: Alt_def Let_def split: option.splits prod.splits)

lemma NewRef_Start [simp]: "Start (g (fst (NewRef p l at b))) = Start (g b)"
  by (auto simp add: NewRef_def Let_def split: option.splits prod.splits dest: internDummy_StartD)

lemma SetDirective_Start [simp]: "Start (g (SetDirective k v at b)) = Start (g b)"
  by (simp add: SetDirective_def Let_def)

lemma Finalize_Start [simp]: "Start (g (Finalize b)) = Start (g b)"
  using Finalize_adds [of b] by (simp add: adds_def)



lemma SetTypeTag_Kind [simp]: "Kind (Symbols (g (SetTypeTag p t at b)) ! i) = Kind (Symbols (g b) ! i)"
proof (cases p)
  case None
  then show ?thesis by (simp add: SetTypeTag_def)
next
  case (Some q)
  have "Kind ((Symbols (g b))[q := (Symbols (g b) ! q)\<lparr>TypeTag := x\<rparr>] ! i) = Kind (Symbols (g b) ! i)" for x
    by (cases "q < length (Symbols (g b))") (auto simp add: nth_list_update list_update_beyond not_less)
  then show ?thesis by (simp add: Some SetTypeTag_def)
qed

lemma SetTypeTag_by_name [simp]: "SymbolsByName (g (SetTypeTag p t at b)) = SymbolsByName (g b)"
  by (simp add: SetTypeTag_def split: option.splits)


subsection \<open>The spelling heuristic\<close>

lemma ascii_upper_letter: "ascii_upper c \<Longrightarrow> IsLetter c \<and> ToUpper c = of_char c"
  by (simp add: ascii_upper_def IsLetter_def ToUpper_def Let_def)

lemma ascii_lower_letter: "ascii_lower c \<Longrightarrow> IsLetter c \<and> ToUpper c \<noteq> of_char c"
  by (auto simp add: ascii_lower_def IsLetter_def ToUpper_def Let_def)

lemma looks_loop_nonletter: "\<exists>c \<in> set name. \<not> IsLetter c \<Longrightarrow> looks_loop h u name"
  by (induction name arbitrary: h u) auto

lemma looks_loop_letters:
  "\<forall>c \<in> set name. IsLetter c \<Longrightarrow>
   looks_loop h u name = ((h \<or> name \<noteq> []) \<and> u \<and> (\<forall>c \<in> set name. ToUpper c = of_char c))"
  by (induction name arbitrary: h u) auto

lemma looksLikeTerminal_yes:
  assumes "name \<noteq> []" "(\<exists>c \<in> set name. \<not> IsLetter c) \<or> (\<forall>c \<in> set name. ascii_upper c)"
  shows "looksLikeTerminal name"
proof (cases "\<exists>c \<in> set name. \<not> IsLetter c")
  case True
  with assms(1) show ?thesis by (simp add: looksLikeTerminal_def looks_loop_nonletter)
next
  case False
  with assms(2) have "\<forall>c \<in> set name. ascii_upper c" by blast
  then have "\<forall>c \<in> set name. IsLetter c" "\<forall>c \<in> set name. ToUpper c = of_char c"
    using ascii_upper_letter by blast+
  with assms(1) show ?thesis by (simp add: looksLikeTerminal_def looks_loop_letters)
qed

lemma looksLikeTerminal_no:
  assumes "\<forall>c \<in> set name. ascii_upper c \<or> ascii_lower c" "\<exists>c \<in> set name. ascii_lower c"
  shows "\<not> looksLikeTerminal name"
proof -
  have "\<forall>c \<in> set name. IsLetter c"
    using assms(1) ascii_upper_letter ascii_lower_letter by blast
  moreover have "\<exists>c \<in> set name. ToUpper c \<noteq> of_char c"
    using assms(2) ascii_lower_letter by blast
  ultimately show ?thesis by (auto simp add: looksLikeTerminal_def looks_loop_letters)
qed

lemma Intern_fresh:
  assumes "name \<noteq> []" "TrimSpace name = name" "SymbolsByName (g b) name = None"
  shows "snd (Intern name kind at b) = length (Symbols (g b))"
    "Kind (Symbols (g (fst (Intern name kind at b))) ! length (Symbols (g b))) = kind"
    "Name (Symbols (g (fst (Intern name kind at b))) ! length (Symbols (g b))) = name"
  using assms by (simp_all add: Intern_def intern_trimmed_def)

lemma Intern_known:
  assumes "name \<noteq> []" "TrimSpace name = name" "SymbolsByName (g b) name = Some q"
  shows "snd (Intern name kind at b) = q" "g (fst (Intern name kind at b)) = g b"
  using assms by (simp_all add: Intern_def intern_trimmed_def)

section \<open>Finalization\<close>

text \<open>
  Claim C1, counterexample. The grammar \<^verbatim>\<open>s ::= s A. s ::= A.\<close> is built and finalized
  with no diagnostic at all; its start symbol is \<open>s\<close>; after \<^verbatim>\<open>Finalize\<close> its rules are
  the one rule of \<open>s\<close> and its symbols are \<open>s\<close> and \<open>A\<close>: there is no rule whose
  left-hand side is \<^verbatim>\<open>$accept\<close>.
\<close>

theorem Finalize_no_accept_rule:
  "diags (run_ops list_grammar_ops) = []
   \<and> Start (g (run_ops list_grammar_ops)) = Some 0
   \<and> map Name (Symbols (g (run_ops list_grammar_ops))) = [''s'', ''A'']
   \<and> Rules (g (run_ops list_grammar_ops)) =
       [Some \<lparr>LHS = Some 0,
              Alternatives =
                [Some \<lparr>RHS = [plain_ref 0, plain_ref 1], Alternative_Action = None, PrecSym = None,
                        Alternative_At = None\<rparr>,
                 Some \<lparr>RHS = [plain_ref 1], Alternative_Action = None, PrecSym = None,
                        Alternative_At = None\<rparr>],
              Rule_At = None\<rparr>]"
  by code_simp

text \<open>
  Claim C1, as amended. \<^verbatim>\<open>Finalize\<close> adds no rule: for every builder the grammar it
  returns is the grammar as it was built (rules, symbols and start symbol unchanged), the
  precedence counter is unchanged, and the diagnostics are the earlier ones followed by
  those of the validation.
\<close>

theorem Finalize_keeps_grammar:
  "g (Finalize b) = g b \<and> precedenceCounter (Finalize b) = precedenceCounter b
   \<and> diags (Finalize b) = diags b @ new_diags b (Finalize b)"
  using Finalize_adds [of b] adds_new_diags [of finalize_diag b "Finalize b"]
  by (simp add: adds_def)

lemma loop_grammar:
  "Symbols (g (run_ops loop_grammar_ops)) =
     [\<lparr>ID = 0, Name = ''loop'', Kind = SymNonterminal, TypeTag = [], Precedence = 0, Assoc = AssocNone,
       DeclaredAt = None\<rparr>]"
  "Rules (g (run_ops loop_grammar_ops)) =
     [Some \<lparr>LHS = Some 0,
            Alternatives = [Some \<lparr>RHS = [plain_ref 0], Alternative_Action = None, PrecSym = None,
                                   Alternative_At = None\<rparr>],
            Rule_At = None\<rparr>]"
  "diags (run_ops loop_grammar_ops) = []"
  by code_simp+

lemma loop_not_productive: "productive G p \<Longrightarrow> G = g (run_ops loop_grammar_ops) \<Longrightarrow> False"
proof (induction rule: productive.induct)
  case (terminal p)
  then show ?case by (simp add: loop_grammar)
next
  case (rule r p alt)
  then show ?case by (auto simp add: loop_grammar plain_ref_def)
qed

text \<open>
  Claim C2, counterexample. In the grammar \<^verbatim>\<open>loop ::= loop.\<close> the nonterminal \<open>loop\<close>
  is not productive, and \<^verbatim>\<open>Finalize\<close> records no diagnostic.
\<close>

theorem Finalize_silent_on_unproductive:
  "\<not> productive (g (run_ops loop_grammar_ops)) 0 \<and> diags (run_ops loop_grammar_ops) = []"
  using loop_not_productive [of "g (run_ops loop_grammar_ops)" 0] by (auto simp add: loop_grammar)

text \<open>
  Claim C2, as amended. \<^verbatim>\<open>Finalize\<close> makes no productivity analysis: every warning that
  it records is about a rule with no alternatives, a precedence override whose terminal
  has no precedence, a nonterminal unreachable from the start symbol, or a symbol that is
  never used.
\<close>

theorem Finalize_warning_kinds:
  "\<forall>d \<in> set (new_diags b (Finalize b)).
     Level d = DiagWarn \<longrightarrow>
     Format d \<in> {''rule %q has no alternatives'',
                 ''precedence override uses %q, but it has no precedence (missing %%left/%%right/%%nonassoc?)'',
                 ''nonterminal %q has rules but is unreachable from start symbol %q'',
                 ''terminal %q is declared but never used'',
                 ''nonterminal %q has rules but is never referenced (except as LHS)'',
                 ''nonterminal %q is declared but never used and has no rules''}"
  using adds_new_diags_P [OF Finalize_adds, of _ b] unfolding finalize_diag_def by blast

theorem Finalize_warning_kinds_witness:
  "\<lparr>Level = DiagWarn, Msg = Sprintf ''rule %q has no alternatives'' [ArgS ''s''], At = None\<rparr>
     \<in> set (new_diags (run_ops (butlast empty_rule_ops)) (Finalize (run_ops (butlast empty_rule_ops))))
   \<and> Format \<lparr>Level = DiagWarn, Msg = Sprintf ''rule %q has no alternatives'' [ArgS ''s''], At = None\<rparr>
     \<in> {''rule %q has no alternatives'',
        ''precedence override uses %q, but it has no precedence (missing %%left/%%right/%%nonassoc?)'',
        ''nonterminal %q has rules but is unreachable from start symbol %q'',
        ''terminal %q is declared but never used'',
        ''nonterminal %q has rules but is never referenced (except as LHS)'',
        ''nonterminal %q is declared but never used and has no rules''}"
proof -
  have m: "\<lparr>Level = DiagWarn, Msg = Sprintf ''rule %q has no alternatives'' [ArgS ''s''], At = None\<rparr>
     \<in> set (new_diags (run_ops (butlast empty_rule_ops)) (Finalize (run_ops (butlast empty_rule_ops))))"
    by code_simp
  with Finalize_warning_kinds [of "run_ops (butlast empty_rule_ops)"] show ?thesis
    by force
qed

text \<open>
  Claim C7, counterexample. A grammar whose only rule has zero alternatives is finalized
  with two diagnostics, both of warning level; the rule is reported by the first.
\<close>

theorem empty_rule_only_warnings:
  "Rules (g (run_ops empty_rule_ops)) = [Some \<lparr>LHS = Some 0, Alternatives = [], Rule_At = None\<rparr>]
   \<and> diags (run_ops empty_rule_ops) =
     [\<lparr>Level = DiagWarn, Msg = Sprintf ''rule %q has no alternatives'' [ArgS ''s''], At = None\<rparr>,
      \<lparr>Level = DiagWarn,
        Msg = Sprintf ''nonterminal %q has rules but is never referenced (except as LHS)'' [ArgS ''s''],
        At = None\<rparr>]"
  by code_simp

text \<open>
  Claim C7, as amended. For every grammar in which some rule, with a left-hand side, has
  zero alternatives, \<^verbatim>\<open>Finalize\<close> reports that rule with a diagnostic of warning level
  that names the left-hand side, and no diagnostic of \<^verbatim>\<open>Finalize\<close> with that message
  is of error level.
\<close>

theorem rule_without_alternatives_is_warned:
  assumes "Some r \<in> set (Rules (g b))" "LHS r = Some l" "Alternatives r = []"
  shows "\<lparr>Level = DiagWarn,
            Msg = Sprintf ''rule %q has no alternatives'' [ArgS (Name (Symbols (g b) ! l))],
            At = Rule_At r\<rparr> \<in> set (new_diags b (Finalize b))
         \<and> (\<forall>d \<in> set (new_diags b (Finalize b)).
               Format d = ''rule %q has no alternatives'' \<longrightarrow> Level d = DiagWarn)"
proof -
  from assms(1) have "Rules (g b) \<noteq> []" by auto
  from Finalize_stages [OF this] obtain b1 b2 b3 used edges where
    a1: "adds finalize_diag b b1" and a2: "adds finalize_diag b1 b2" and
    f: "foldl rule_step (b2, [], []) (Rules (g b)) = (b3, used, edges)" and
    a3: "adds finalize_diag b2 b3" and a4: "adds finalize_diag b3 (Finalize b)"
    by blast
  have gb2: "g b2 = g b" using a1 a2 by (simp add: adds_def)
  have "\<lparr>Level = DiagWarn,
          Msg = Sprintf ''rule %q has no alternatives'' [ArgS (Name (Symbols (g b) ! l))],
          At = Rule_At r\<rparr> \<in> set (new_diags b2 b3)"
    using foldl_rule_step_no_alternatives [OF assms, of "(b2, [], [])"] f gb2 by simp
  moreover have "new_diags b (Finalize b)
      = new_diags b b1 @ new_diags b1 b2 @ new_diags b2 b3 @ new_diags b3 (Finalize b)"
    using new_diags_trans [OF a1 adds_trans [OF a2 adds_trans [OF a3 a4]]]
      new_diags_trans [OF a2 adds_trans [OF a3 a4]] new_diags_trans [OF a3 a4] by simp
  ultimately have 1: "\<lparr>Level = DiagWarn,
          Msg = Sprintf ''rule %q has no alternatives'' [ArgS (Name (Symbols (g b) ! l))],
          At = Rule_At r\<rparr> \<in> set (new_diags b (Finalize b))" by simp
  have 2: "\<forall>d \<in> set (new_diags b (Finalize b)).
               Format d = ''rule %q has no alternatives'' \<longrightarrow> Level d = DiagWarn"
    using adds_new_diags_P [OF Finalize_adds, of _ b] unfolding finalize_diag_def by blast
  from 1 2 show ?thesis by blast
qed

theorem rule_without_alternatives_is_warned_witness:
  "Some \<lparr>LHS = Some 0, Alternatives = [], Rule_At = None\<rparr>
     \<in> set (Rules (g (run_ops (butlast empty_rule_ops))))
   \<and> \<lparr>Level = DiagWarn, Msg = Sprintf ''rule %q has no alternatives'' [ArgS ''s''], At = None\<rparr>
     \<in> set (new_diags (run_ops (butlast empty_rule_ops)) (Finalize (run_ops (butlast empty_rule_ops))))
   \<and> Level \<lparr>Level = DiagWarn, Msg = Sprintf ''rule %q has no alternatives'' [ArgS ''s''], At = None\<rparr>
     = DiagWarn"
proof -
  let ?r = "\<lparr>LHS = Some 0, Alternatives = [], Rule_At = None\<rparr>"
  let ?b = "run_ops (butlast empty_rule_ops)"
  have h: "Some ?r \<in> set (Rules (g ?b))" "LHS ?r = Some 0" "Alternatives ?r = []"
    by code_simp+
  have n: "Name (Symbols (g ?b) ! 0) = ''s''"
    by code_simp
  from rule_without_alternatives_is_warned [OF h] show ?thesis
    using h(1) n by (simp add: Format_def)
qed

section \<open>Interning\<close>

text \<open>
  Claim C3. For every name and kind: if the trimmed name is already interned,
  \<^verbatim>\<open>Intern\<close> returns the existing symbol and leaves the grammar unchanged; it records
  nothing when the kinds agree and exactly one error-level diagnostic when the requested
  kind differs. If the name is empty after trimming, \<^verbatim>\<open>Intern\<close> records the error
  \<^verbatim>\<open>symbol name is empty\<close> and returns a symbol of the table whose name is
  \<^verbatim>\<open><invalid>\<close>.
\<close>

theorem Intern_existing_or_empty:
  "(TrimSpace name \<noteq> [] \<and> SymbolsByName (g b) (TrimSpace name) = Some p \<longrightarrow>
      snd (Intern name kind at b) = p \<and> g (fst (Intern name kind at b)) = g b \<and>
      (Kind (Symbols (g b) ! p) = kind \<longrightarrow> diags (fst (Intern name kind at b)) = diags b) \<and>
      (Kind (Symbols (g b) ! p) \<noteq> kind \<longrightarrow>
         diags (fst (Intern name kind at b)) = diags b @
           [\<lparr>Level = DiagError,
             Msg = Sprintf ''symbol %q previously declared as %s, cannot redeclare as %s''
                     [ArgS (TrimSpace name), ArgS (kindString (Kind (Symbols (g b) ! p))),
                      ArgS (kindString kind)],
             At = at\<rparr>]))
   \<and> (TrimSpace name = [] \<and> by_name_ok (g b) \<longrightarrow>
        snd (Intern name kind at b) < length (Symbols (g (fst (Intern name kind at b)))) \<and>
        Name (Symbols (g (fst (Intern name kind at b))) ! snd (Intern name kind at b)) = ''<invalid>'' \<and>
        diags (fst (Intern name kind at b)) = diags b @
          [\<lparr>Level = DiagError, Msg = Sprintf ''symbol name is empty'' [], At = at\<rparr>])"
  by (auto simp add: Intern_def intern_trimmed_def internDummy_def error_diags by_name_ok_def
      split: option.splits)

theorem Intern_existing_or_empty_witness:
  "TrimSpace '' A '' \<noteq> [] \<and> SymbolsByName (g (run_ops list_grammar_ops)) (TrimSpace '' A '') = Some 1
   \<and> snd (Intern '' A '' SymNonterminal None (run_ops list_grammar_ops)) = 1
   \<and> Kind (Symbols (g (run_ops list_grammar_ops)) ! 1) \<noteq> SymNonterminal
   \<and> diags (fst (Intern '' A '' SymNonterminal None (run_ops list_grammar_ops))) =
       [\<lparr>Level = DiagError,
         Msg = Sprintf ''symbol %q previously declared as %s, cannot redeclare as %s''
                 [ArgS ''A'', ArgS ''terminal'', ArgS ''nonterminal''],
         At = None\<rparr>]
   \<and> Kind (Symbols (g (run_ops list_grammar_ops)) ! 0) = SymNonterminal
   \<and> diags (fst (Intern ''s'' SymNonterminal None (run_ops list_grammar_ops))) = []
   \<and> TrimSpace ''  '' = [] \<and> by_name_ok (g (run_ops list_grammar_ops))
   \<and> Name (Symbols (g (fst (Intern ''  '' SymTerminal None (run_ops list_grammar_ops))))
              ! snd (Intern ''  '' SymTerminal None (run_ops list_grammar_ops))) = ''<invalid>''"
proof -
  let ?b = "run_ops list_grammar_ops"
  have h: "TrimSpace '' A '' \<noteq> []" "SymbolsByName (g ?b) (TrimSpace '' A '') = Some 1"
    "Kind (Symbols (g ?b) ! 1) \<noteq> SymNonterminal" "TrimSpace '' A '' = ''A''"
    "TrimSpace ''s'' \<noteq> []" "SymbolsByName (g ?b) (TrimSpace ''s'') = Some 0"
    "Kind (Symbols (g ?b) ! 0) = SymNonterminal" "Kind (Symbols (g ?b) ! 1) = SymTerminal"
    "TrimSpace ''  '' = []" "diags ?b = []"
    by code_simp+
  have w: "by_name_ok (g ?b)" by (rule run_ops_by_name_ok)
  from Intern_existing_or_empty [of "'' A ''" ?b 1 SymNonterminal None]
    Intern_existing_or_empty [of "''s''" ?b 0 SymNonterminal None]
    Intern_existing_or_empty [of "''  ''" ?b 0 SymTerminal None] h w
  show ?thesis by simp
qed

text \<open>
  Claim C10, counterexample. For the name of two blanks the trimmed spelling is empty, and
  the \<open>Name\<close> of the symbol that \<^verbatim>\<open>Intern\<close> returns is \<^verbatim>\<open><invalid>\<close>, not the trimmed
  spelling.
\<close>

theorem Intern_blank_name_counterexample:
  "TrimSpace ''  '' = []
   \<and> Name (Symbols (g (fst (Intern ''  '' SymTerminal None (NewBuilder []))))
             ! snd (Intern ''  '' SymTerminal None (NewBuilder []))) = ''<invalid>''"
  by code_simp

text \<open>
  Claim C10, as amended. \<^verbatim>\<open>Lookup\<close> consults the by-name table at the trimmed name.
  For every two spellings with the same trimmed name, \<^verbatim>\<open>Lookup\<close> gives the same answer
  and interning the second after the first yields the same symbol; when the trimmed name is
  not empty, \<^verbatim>\<open>Lookup\<close> of the second spelling finds the symbol interned under the first
  and the \<open>Name\<close> of that symbol is the trimmed spelling.
\<close>

theorem Intern_Lookup_trimmed:
  "Lookup name b = SymbolsByName (g b) (TrimSpace name)
   \<and> (TrimSpace n1 = TrimSpace n2 \<longrightarrow>
        Lookup n1 b = Lookup n2 b \<and>
        snd (Intern n2 k2 at2 (fst (Intern n1 k1 at1 b))) = snd (Intern n1 k1 at1 b))
   \<and> (TrimSpace n1 = TrimSpace n2 \<and> TrimSpace n1 \<noteq> [] \<longrightarrow>
        Lookup n2 (fst (Intern n1 k1 at1 b)) = Some (snd (Intern n1 k1 at1 b)))
   \<and> (TrimSpace n1 \<noteq> [] \<and> by_name_ok (g b) \<longrightarrow>
        Name (Symbols (g (fst (Intern n1 k1 at1 b))) ! snd (Intern n1 k1 at1 b)) = TrimSpace n1)"
  by (auto simp add: Lookup_def Intern_def intern_trimmed_def internDummy_def by_name_ok_def
      split: option.splits)

theorem Intern_Lookup_trimmed_witness:
  "TrimSpace '' A '' = TrimSpace ''A'' \<and> TrimSpace '' A '' \<noteq> [] \<and> by_name_ok (g (NewBuilder []))
   \<and> snd (Intern ''A'' SymNonterminal None (fst (Intern '' A '' SymTerminal None (NewBuilder []))))
       = snd (Intern '' A '' SymTerminal None (NewBuilder []))
   \<and> Lookup ''A'' (fst (Intern '' A '' SymTerminal None (NewBuilder [])))
       = Some (snd (Intern '' A '' SymTerminal None (NewBuilder [])))
   \<and> Name (Symbols (g (fst (Intern '' A '' SymTerminal None (NewBuilder []))))
            ! snd (Intern '' A '' SymTerminal None (NewBuilder []))) = ''A''"
proof -
  have h: "TrimSpace '' A '' = TrimSpace ''A''" "TrimSpace '' A '' \<noteq> []" "TrimSpace '' A '' = ''A''"
    by code_simp+
  have w: "by_name_ok (g (NewBuilder []))"
    by (simp add: by_name_ok_def NewBuilder_def)
  from Intern_Lookup_trimmed [of "''A''" "NewBuilder []" "'' A ''" "''A''" SymNonterminal None SymTerminal None]
    h w show ?thesis by simp
qed

text \<open>
  Claim C9. After every sequence of builder operations the symbol with \<open>ID\<close> \<open>i\<close> is at
  index \<open>i\<close> of \<^verbatim>\<open>Symbols\<close>; every operation preserves this; and a name that is
  not yet interned gets the next index as its \<open>ID\<close>, at the end of the table.
\<close>

theorem symbol_ids_dense:
  "(\<forall>i < length (Symbols (g (run_ops ops))). ID (Symbols (g (run_ops ops)) ! i) = i)
   \<and> (dense (g b) \<longrightarrow> dense (g (apply_op b op)))
   \<and> (TrimSpace name \<noteq> [] \<and> SymbolsByName (g b) (TrimSpace name) = None \<longrightarrow>
        snd (Intern name kind at b) = length (Symbols (g b)) \<and>
        Symbols (g (fst (Intern name kind at b))) =
          Symbols (g b) @ [\<lparr>ID = length (Symbols (g b)), Name = TrimSpace name, Kind = kind, TypeTag = [],
                            Precedence = 0, Assoc = AssocNone, DeclaredAt = at\<rparr>])"
  using run_ops_dense [of ops] apply_op_dense [of b op]
  by (simp add: dense_def Intern_def intern_trimmed_def)

theorem symbol_ids_dense_witness:
  "1 < length (Symbols (g (run_ops list_grammar_ops)))
   \<and> ID (Symbols (g (run_ops list_grammar_ops)) ! 1) = 1
   \<and> 0 < length (Symbols (g (apply_op (NewBuilder []) (OpIntern ''A'' SymTerminal None))))
   \<and> ID (Symbols (g (apply_op (NewBuilder []) (OpIntern ''A'' SymTerminal None))) ! 0) = 0
   \<and> TrimSpace ''A'' \<noteq> [] \<and> SymbolsByName (g (NewBuilder [])) (TrimSpace ''A'') = None
   \<and> snd (Intern ''A'' SymTerminal None (NewBuilder [])) = length (Symbols (g (NewBuilder [])))"
proof -
  let ?op = "OpIntern ''A'' SymTerminal None"
  have h: "1 < length (Symbols (g (run_ops list_grammar_ops)))"
    "0 < length (Symbols (g (apply_op (NewBuilder []) ?op)))"
    "TrimSpace ''A'' \<noteq> []" "SymbolsByName (g (NewBuilder [])) (TrimSpace ''A'') = None"
    by code_simp+
  have d: "dense (g (NewBuilder []))"
    by (simp add: dense_def NewBuilder_def)
  note t = symbol_ids_dense [of list_grammar_ops "NewBuilder []" ?op "''A''" SymTerminal None]
  from t h(1) have 1: "ID (Symbols (g (run_ops list_grammar_ops)) ! 1) = 1"
    by blast
  from t d have "dense (g (apply_op (NewBuilder []) ?op))"
    by blast
  with h(2) have 2: "ID (Symbols (g (apply_op (NewBuilder []) ?op)) ! 0) = 0"
    by (simp add: dense_def)
  from t h(3,4) have 3: "snd (Intern ''A'' SymTerminal None (NewBuilder [])) = length (Symbols (g (NewBuilder [])))"
    by blast
  from h 1 2 3 show ?thesis by blast
qed

section \<open>Type tags\<close>

text \<open>
  Claim C6. For every symbol, \<^verbatim>\<open>SetTypeTag\<close> with a tag that is non-empty after
  trimming and differs from the non-empty tag already set records one error-level
  diagnostic and leaves the grammar, so the symbol's \<open>TypeTag\<close>, unchanged; with the tag
  already set it changes nothing and records nothing; the first tag given to a symbol
  without one is stored, with no diagnostic.
\<close>

theorem SetTypeTag_first_wins:
  "(TrimSpace typeTag \<noteq> [] \<and> TypeTag (Symbols (g b) ! p) \<noteq> [] \<and>
      TypeTag (Symbols (g b) ! p) \<noteq> TrimSpace typeTag \<longrightarrow>
        g (SetTypeTag (Some p) typeTag at b) = g b \<and>
        diags (SetTypeTag (Some p) typeTag at b) = diags b @
          [\<lparr>Level = DiagError,
            Msg = Sprintf ''symbol %q already has type %q; cannot set to %q''
                    [ArgS (Name (Symbols (g b) ! p)), ArgS (TypeTag (Symbols (g b) ! p)),
                     ArgS (TrimSpace typeTag)],
            At = at\<rparr>])
   \<and> (TypeTag (Symbols (g b) ! p) = TrimSpace typeTag \<longrightarrow> SetTypeTag (Some p) typeTag at b = b)
   \<and> (p < length (Symbols (g b)) \<and> TypeTag (Symbols (g b) ! p) = [] \<and> TrimSpace typeTag \<noteq> [] \<longrightarrow>
        TypeTag (Symbols (g (SetTypeTag (Some p) typeTag at b)) ! p) = TrimSpace typeTag \<and>
        diags (SetTypeTag (Some p) typeTag at b) = diags b)"
proof -
  have same: "SetTypeTag (Some p) typeTag at b = b"
    if eq: "TypeTag (Symbols (g b) ! p) = TrimSpace typeTag"
  proof -
    have u: "(Symbols (g b) ! p)\<lparr>TypeTag := TrimSpace typeTag\<rparr> = Symbols (g b) ! p"
      using eq [symmetric] by simp
    have "SetTypeTag (Some p) typeTag at b =
        (if TrimSpace typeTag = [] then b
         else b\<lparr>g := (g b)\<lparr>Symbols :=
                (Symbols (g b))[p := (Symbols (g b) ! p)\<lparr>TypeTag := TrimSpace typeTag\<rparr>]\<rparr>\<rparr>)"
      using eq by (simp add: SetTypeTag_def)
    also have "\<dots> = b" unfolding u by simp
    finally show ?thesis .
  qed
  have rest: "TypeTag (Symbols (g b) ! p) \<noteq> TrimSpace typeTag \<Longrightarrow> ?thesis"
    by (auto simp add: SetTypeTag_def error_diags)
  show ?thesis
  proof (cases "TypeTag (Symbols (g b) ! p) = TrimSpace typeTag")
    case True
    with same show ?thesis by simp
  next
    case False
    then show ?thesis by (rule rest)
  qed
qed

theorem SetTypeTag_first_wins_witness:
  "TrimSpace ''float'' \<noteq> [] \<and> TypeTag (Symbols (g (run_ops typed_symbol_ops)) ! 0) = ''int''
   \<and> g (SetTypeTag (Some 0) ''float'' None (run_ops typed_symbol_ops)) = g (run_ops typed_symbol_ops)
   \<and> diags (SetTypeTag (Some 0) ''float'' None (run_ops typed_symbol_ops)) =
       [\<lparr>Level = DiagError,
         Msg = Sprintf ''symbol %q already has type %q; cannot set to %q''
                 [ArgS ''e'', ArgS ''int'', ArgS ''float''],
         At = None\<rparr>]
   \<and> TrimSpace '' int '' = ''int''
   \<and> SetTypeTag (Some 0) '' int '' None (run_ops typed_symbol_ops) = run_ops typed_symbol_ops
   \<and> 0 < length (Symbols (g (run_ops (butlast typed_symbol_ops))))
   \<and> TypeTag (Symbols (g (run_ops (butlast typed_symbol_ops))) ! 0) = []
   \<and> TypeTag (Symbols (g (SetTypeTag (Some 0) ''float'' None (run_ops (butlast typed_symbol_ops)))) ! 0)
       = ''float''"
proof -
  let ?b = "run_ops typed_symbol_ops" and ?c = "run_ops (butlast typed_symbol_ops)"
  have h: "TrimSpace ''float'' \<noteq> []" "TrimSpace ''float'' = ''float''"
    "TypeTag (Symbols (g ?b) ! 0) = ''int''" "TrimSpace '' int '' = ''int''"
    "Name (Symbols (g ?b) ! 0) = ''e''" "diags ?b = []"
    "0 < length (Symbols (g ?c))" "TypeTag (Symbols (g ?c) ! 0) = []"
    by code_simp+
  from SetTypeTag_first_wins [of "''float''" ?b 0 None] SetTypeTag_first_wins [of "'' int ''" ?b 0 None]
    SetTypeTag_first_wins [of "''float''" ?c 0 None] h
  show ?thesis by simp
qed

section \<open>Precedence groups\<close>







section \<open>Start selection\<close>



section \<open>Kind inference for right-hand sides\<close>

text \<open>
  Claim C5, counterexample. After the rule \<^verbatim>\<open>x ::= .\<close> and the directive
  \<^verbatim>\<open>%token x.\<close> the name \<open>x\<close> is declared by a \<^verbatim>\<open>%token\<close> directive, and a
  reference to \<open>x\<close> in a right-hand side resolves to a nonterminal.
\<close>

theorem declared_token_resolves_to_nonterminal:
  "declTokens (run_events declared_then_used_events) ''x''
   \<and> Kind (Symbols (g (B (fst (resolveSymbolInRHS (sym_ref ''x'') (run_events declared_then_used_events)))))
             ! snd (resolveSymbolInRHS (sym_ref ''x'') (run_events declared_then_used_events)))
       = SymNonterminal"
  by code_simp

text \<open>
  Claim C5, as amended. For every reference whose name is not empty after trimming: a
  name that is already interned resolves to the existing symbol and the grammar, so its
  kind, is unchanged, also when the name was declared by a \<^verbatim>\<open>%token\<close>-style directive;
  a name not yet interned becomes a terminal when it was declared by such a directive, or
  when the heuristic is enabled and the name contains a non-letter or consists entirely of
  uppercase ASCII letters; a name not yet interned and not declared becomes a nonterminal
  when the heuristic is disabled or the name consists of ASCII letters, not all of them
  uppercase.
\<close>

theorem resolved_kind:
  "TrimSpace (SymRef_Name sr) \<noteq> [] \<longrightarrow>
     (SymbolsByName (g (B s)) (TrimSpace (SymRef_Name sr)) = Some q \<longrightarrow>
        snd (resolveSymbolInRHS sr s) = q \<and> g (B (fst (resolveSymbolInRHS sr s))) = g (B s))
   \<and> (SymbolsByName (g (B s)) (TrimSpace (SymRef_Name sr)) = None \<and>
        (declTokens s (TrimSpace (SymRef_Name sr)) \<or>
         UseHeuristicCapsAsTerminal s \<and>
           ((\<exists>c \<in> set (TrimSpace (SymRef_Name sr)). \<not> IsLetter c) \<or>
            (\<forall>c \<in> set (TrimSpace (SymRef_Name sr)). ascii_upper c))) \<longrightarrow>
        Kind (Symbols (g (B (fst (resolveSymbolInRHS sr s)))) ! snd (resolveSymbolInRHS sr s)) = SymTerminal \<and>
        Name (Symbols (g (B (fst (resolveSymbolInRHS sr s)))) ! snd (resolveSymbolInRHS sr s))
          = TrimSpace (SymRef_Name sr))
   \<and> (SymbolsByName (g (B s)) (TrimSpace (SymRef_Name sr)) = None \<and>
        \<not> declTokens s (TrimSpace (SymRef_Name sr)) \<and>
        (\<not> UseHeuristicCapsAsTerminal s \<or>
           (\<forall>c \<in> set (TrimSpace (SymRef_Name sr)). ascii_upper c \<or> ascii_lower c) \<and>
           (\<exists>c \<in> set (TrimSpace (SymRef_Name sr)). ascii_lower c)) \<longrightarrow>
        Kind (Symbols (g (B (fst (resolveSymbolInRHS sr s)))) ! snd (resolveSymbolInRHS sr s)) = SymNonterminal \<and>
        Name (Symbols (g (B (fst (resolveSymbolInRHS sr s)))) ! snd (resolveSymbolInRHS sr s))
          = TrimSpace (SymRef_Name sr))"
proof -
  define n where "n = TrimSpace (SymRef_Name sr)"
  have t: "TrimSpace n = n" by (simp add: n_def)
  have r: "resolveSymbolInRHS sr s =
      (if declTokens s n
       then (s\<lparr>B := fst (Intern n SymTerminal (SymRef_At sr) (B s))\<rparr>,
             snd (Intern n SymTerminal (SymRef_At sr) (B s)))
       else case SymbolsByName (g (B s)) n of
         Some existing \<Rightarrow> (s, existing)
       | None \<Rightarrow>
           if UseHeuristicCapsAsTerminal s \<and> looksLikeTerminal n
           then (s\<lparr>B := fst (Intern n SymTerminal (SymRef_At sr) (B s))\<rparr>,
                 snd (Intern n SymTerminal (SymRef_At sr) (B s)))
           else (s\<lparr>B := fst (Intern n SymNonterminal (SymRef_At sr) (B s))\<rparr>,
                 snd (Intern n SymNonterminal (SymRef_At sr) (B s))))"
    if "n \<noteq> []"
    using that t unfolding resolveSymbolInRHS_def Let_def n_def [symmetric]
    by (auto simp add: EnsureTerminal_def EnsureNonterminal_def Lookup_def split_beta split: option.splits)
  have 1: "snd (resolveSymbolInRHS sr s) = q \<and> g (B (fst (resolveSymbolInRHS sr s))) = g (B s)"
    if "n \<noteq> []" "SymbolsByName (g (B s)) n = Some q"
    using that t by (simp add: r Intern_known)
  have 2: "Kind (Symbols (g (B (fst (resolveSymbolInRHS sr s)))) ! snd (resolveSymbolInRHS sr s)) = SymTerminal \<and>
        Name (Symbols (g (B (fst (resolveSymbolInRHS sr s)))) ! snd (resolveSymbolInRHS sr s)) = n"
    if "n \<noteq> []" "SymbolsByName (g (B s)) n = None"
      "declTokens s n \<or> UseHeuristicCapsAsTerminal s \<and> ((\<exists>c \<in> set n. \<not> IsLetter c) \<or> (\<forall>c \<in> set n. ascii_upper c))"
    using that t looksLikeTerminal_yes [of n] by (auto simp add: r Intern_fresh)
  have 3: "Kind (Symbols (g (B (fst (resolveSymbolInRHS sr s)))) ! snd (resolveSymbolInRHS sr s)) = SymNonterminal \<and>
        Name (Symbols (g (B (fst (resolveSymbolInRHS sr s)))) ! snd (resolveSymbolInRHS sr s)) = n"
    if "n \<noteq> []" "SymbolsByName (g (B s)) n = None" "\<not> declTokens s n"
      "\<not> UseHeuristicCapsAsTerminal s \<or>
         (\<forall>c \<in> set n. ascii_upper c \<or> ascii_lower c) \<and> (\<exists>c \<in> set n. ascii_lower c)"
    using that t looksLikeTerminal_no [of n] by (auto simp add: r Intern_fresh)
  show ?thesis using 1 2 3 unfolding n_def by blast
qed

theorem resolved_kind_witness:
  "TrimSpace (SymRef_Name (sym_ref '' x '')) \<noteq> []
   \<and> SymbolsByName (g (B (run_events declared_then_used_events))) (TrimSpace (SymRef_Name (sym_ref '' x '')))
       = Some 0
   \<and> snd (resolveSymbolInRHS (sym_ref '' x '') (run_events declared_then_used_events)) = 0
   \<and> g (B (fst (resolveSymbolInRHS (sym_ref '' x '') (run_events declared_then_used_events))))
       = g (B (run_events declared_then_used_events))
   \<and> TrimSpace (SymRef_Name (sym_ref ''PLUS'')) \<noteq> []
   \<and> SymbolsByName (g (B (run_events []))) (TrimSpace (SymRef_Name (sym_ref ''PLUS''))) = None
   \<and> UseHeuristicCapsAsTerminal (run_events [])
   \<and> Kind (Symbols (g (B (fst (resolveSymbolInRHS (sym_ref ''PLUS'') (run_events [])))))
             ! snd (resolveSymbolInRHS (sym_ref ''PLUS'') (run_events []))) = SymTerminal
   \<and> TrimSpace (SymRef_Name (sym_ref ''expr'')) \<noteq> []
   \<and> SymbolsByName (g (B (run_events []))) (TrimSpace (SymRef_Name (sym_ref ''expr''))) = None
   \<and> \<not> declTokens (run_events []) (TrimSpace (SymRef_Name (sym_ref ''expr'')))
   \<and> Kind (Symbols (g (B (fst (resolveSymbolInRHS (sym_ref ''expr'') (run_events [])))))
             ! snd (resolveSymbolInRHS (sym_ref ''expr'') (run_events []))) = SymNonterminal"
proof -
  let ?s1 = "run_events declared_then_used_events" and ?s0 = "run_events []"
  have h1: "TrimSpace (SymRef_Name (sym_ref '' x '')) \<noteq> []"
    "SymbolsByName (g (B ?s1)) (TrimSpace (SymRef_Name (sym_ref '' x ''))) = Some 0"
    by code_simp+
  have h2: "TrimSpace (SymRef_Name (sym_ref ''PLUS'')) \<noteq> []"
    "SymbolsByName (g (B ?s0)) (TrimSpace (SymRef_Name (sym_ref ''PLUS''))) = None"
    "UseHeuristicCapsAsTerminal ?s0"
    "\<forall>c \<in> set (TrimSpace (SymRef_Name (sym_ref ''PLUS''))). ascii_upper c"
    by code_simp+
  have h3: "TrimSpace (SymRef_Name (sym_ref ''expr'')) \<noteq> []"
    "SymbolsByName (g (B ?s0)) (TrimSpace (SymRef_Name (sym_ref ''expr''))) = None"
    "\<not> declTokens ?s0 (TrimSpace (SymRef_Name (sym_ref ''expr'')))"
    "\<forall>c \<in> set (TrimSpace (SymRef_Name (sym_ref ''expr''))). ascii_upper c \<or> ascii_lower c"
    "\<exists>c \<in> set (TrimSpace (SymRef_Name (sym_ref ''expr''))). ascii_lower c"
    by code_simp+
  from resolved_kind [of "sym_ref '' x ''" ?s1 0] h1
  have 1: "snd (resolveSymbolInRHS (sym_ref '' x '') ?s1) = 0"
    "g (B (fst (resolveSymbolInRHS (sym_ref '' x '') ?s1))) = g (B ?s1)"
    by blast+
  from resolved_kind [of "sym_ref ''PLUS''" ?s0 0] h2
  have 2: "Kind (Symbols (g (B (fst (resolveSymbolInRHS (sym_ref ''PLUS'') ?s0))))
             ! snd (resolveSymbolInRHS (sym_ref ''PLUS'') ?s0)) = SymTerminal"
    by blast
  from resolved_kind [of "sym_ref ''expr''" ?s0 0] h3
  have 3: "Kind (Symbols (g (B (fst (resolveSymbolInRHS (sym_ref ''expr'') ?s0))))
             ! snd (resolveSymbolInRHS (sym_ref ''expr'') ?s0)) = SymNonterminal"
    by blast
  from h1 h2 h3 1 2 3 show ?thesis by blast
qed

text \<open>
  The doc comment of \<^verbatim>\<open>looksLikeTerminal\<close> speaks of uppercase ASCII letters; the test
  \<^verbatim>\<open>unicode.ToUpper(r) != r\<close> also lets through a letter outside ASCII that is its own
  uppercase, such as U+00C9.
\<close>

lemma looksLikeTerminal_Latin1_capital: "looksLikeTerminal [CHR 0xC9]"
  by code_simp

end
